theory Spec2Isabelle
  imports Main
begin

section \<open>mailer.py: a one-shot SMTP mail sender\<close>

text \<open>
  The program is one function, \<^verbatim>\<open>main\<close>, run as \<^verbatim>\<open>sys.exit(main())\<close>. It parses three
  required options, reads six environment variables, reads the body file, builds one
  message and hands it to an SMTP session. Everything it does beyond computing values
  goes through the standard library; the model makes those effects explicit:
  \<^item> the process environment is a map from names to values;
  \<^item> the file system, the email package and the mail library are functions of a \<open>world\<close>
    that say, for each call, whether it returns or raises, so that every theorem holds for
    every behaviour of the outside;
  \<^item> each library call the program makes is appended to a trace, in program order;
  \<^item> an exception is a value: \<open>Raised\<close> when it leaves \<^verbatim>\<open>main\<close>, an exit code when one of
    the two \<^verbatim>\<open>try\<close> blocks turns it into a \<^verbatim>\<open>return\<close>.
  A string is the list of its characters, for characters with code points below 256; the
  two string functions the program applies (\<^verbatim>\<open>int\<close> and \<^verbatim>\<open>str.lower\<close>) are modelled on
  those.
\<close>

subsection \<open>Data\<close>

text \<open>The exceptions that can leave \<^verbatim>\<open>main\<close>: argparse exits through \<^verbatim>\<open>SystemExit\<close>,
  \<^verbatim>\<open>int\<close> raises \<^verbatim>\<open>ValueError\<close> (carrying the rejected literal), and the email package can
  raise while the message is built (an exception of some class, with its text).\<close>

datatype exc = SystemExit int | ValueError string | Exception string

datatype outcome = Returned int | Raised exc

text \<open>The namespace \<^verbatim>\<open>args\<close> that \<^verbatim>\<open>parse_args\<close> returns.\<close>

record args =
  to :: string
  subject :: string
  body_file :: string

text \<open>The local variables of lines 20 to 25, as one record.\<close>

record config =
  smtp_host :: string
  smtp_port :: int
  smtp_user :: string
  smtp_pass :: string
  smtp_from :: string
  starttls :: bool

text \<open>The \<^verbatim>\<open>EmailMessage\<close> of lines 35 to 39, as the values the program gives it: the three
  values assigned to its headers and the argument of \<^verbatim>\<open>set_content\<close>. What the email
  package makes of them, the message as it then stands, is \<open>email_of\<close> below.\<close>

record message =
  msg_from :: string
  msg_to :: string
  msg_subject :: string
  msg_body :: string

text \<open>The library calls with an effect outside the program, with their arguments. The
  third argument of the two session constructors is the timeout in seconds. The message
  handed to \<^verbatim>\<open>send_message\<close> is recorded by the values it was built from.\<close>

datatype call =
    Environ_get string
  | Open_read string
  | Create_default_context
  | SMTP string int nat
  | SMTP_SSL string int nat
  | Ehlo
  | Starttls
  | Login string string
  | Send_message message
  | Session_exit

text \<open>An event of the trace: a call, and the text of the exception it raised, if any.\<close>

type_synonym event = "call \<times> string option"

text \<open>What is written to a stream: a line written by one of the program's own
  \<^verbatim>\<open>print\<close> calls, the help or usage text argparse writes, or the traceback the interpreter
  writes for an uncaught exception.\<close>

datatype written = Printed string | Help_text | Usage_error_text | Traceback exc

record result =
  outcome :: outcome
  stdout :: "written list"
  stderr :: "written list"
  trace :: "event list"
  message :: "message option"

text \<open>The outside of the program. \<open>file_read\<close> is \<^verbatim>\<open>open(path, 'r')\<close> followed by
  \<^verbatim>\<open>f.read()\<close>: the content, or the text of the exception raised. \<open>message_error\<close> is the
  email package building the message: \<open>None\<close> when lines 35 to 39 run through, the text of the
  exception when one of them raises (the package rejects a header value that holds a line
  break, for one). \<open>header_value\<close> is the email package storing a header: for the name of
  a header and the value assigned to it, the value the message then holds (the package
  parses what it is given, and may store it in another form). \<open>library\<close> answers a call of \<^verbatim>\<open>ssl\<close> or \<^verbatim>\<open>smtplib\<close>, given the events of the
  session before it: \<open>None\<close> when the call returns, the text of the exception when it
  raises.\<close>

record world =
  environ :: "string \<rightharpoonup> string"
  file_read :: "string \<Rightarrow> string + string"
  message_error :: "message \<Rightarrow> string option"
  header_value :: "string \<Rightarrow> string \<Rightarrow> string"
  library :: "event list \<Rightarrow> call \<Rightarrow> string option"

subsection \<open>Argument parsing (lines 14 to 18)\<close>

text \<open>
  The parser is \<^verbatim>\<open>ArgumentParser()\<close> with its default help option and the three options
  added with \<^verbatim>\<open>required=True\<close>, each taking one value. The command line is modelled as
  argparse recognises it, item by item: an option with its value (in any spelling argparse
  accepts for it), the help option, an option argparse rejects where it stands (one with
  no value after it, say), or an argument no option claims.
\<close>

datatype arg_item =
    Opt_to string
  | Opt_subject string
  | Opt_body_file string
  | Opt_help
  | Opt_invalid
  | Unrecognized string

record namespace =
  ns_to :: "string option"
  ns_subject :: "string option"
  ns_body_file :: "string option"
  extras :: "string list"

text \<open>Items are consumed from left to right. The help action exits at once with status 0; a
  rejected option exits at once with status 2; an argument nobody claims is kept for the
  check after the loop; a repeated option overwrites the earlier value.\<close>

fun consume :: "namespace \<Rightarrow> arg_item list \<Rightarrow> exc + namespace" where
  "consume ns [] = Inr ns"
| "consume ns (Opt_to v # rest) = consume (ns\<lparr>ns_to := Some v\<rparr>) rest"
| "consume ns (Opt_subject v # rest) = consume (ns\<lparr>ns_subject := Some v\<rparr>) rest"
| "consume ns (Opt_body_file v # rest) = consume (ns\<lparr>ns_body_file := Some v\<rparr>) rest"
| "consume ns (Opt_help # rest) = Inl (SystemExit 0)"
| "consume ns (Opt_invalid # rest) = Inl (SystemExit 2)"
| "consume ns (Unrecognized a # rest) = consume (ns\<lparr>extras := extras ns @ [a]\<rparr>) rest"

text \<open>After the loop: a required option that was never seen, or a left-over argument, is a
  usage error (status 2).\<close>

definition parse_args :: "arg_item list \<Rightarrow> exc + args" where
  "parse_args argv =
     (case consume \<lparr>ns_to = None, ns_subject = None, ns_body_file = None, extras = []\<rparr> argv of
        Inl e \<Rightarrow> Inl e
      | Inr ns \<Rightarrow>
          (case (ns_to ns, ns_subject ns, ns_body_file ns) of
             (Some t, Some s, Some b) \<Rightarrow>
               if extras ns = [] then Inr \<lparr>to = t, subject = s, body_file = b\<rparr>
               else Inl (SystemExit 2)
           | _ \<Rightarrow> Inl (SystemExit 2)))"

subsection \<open>Configuration (lines 20 to 25)\<close>

text \<open>\<^verbatim>\<open>os.environ.get(key, default)\<close>: the default is used only when the key is absent.\<close>

definition environ_get :: "(string \<rightharpoonup> string) \<Rightarrow> string \<Rightarrow> string \<Rightarrow> string" where
  "environ_get env key dflt = (case env key of None \<Rightarrow> dflt | Some v \<Rightarrow> v)"

text \<open>\<^verbatim>\<open>int(s)\<close> in base 10: white space around the literal is dropped (below 256 these are
  the six ASCII white-space characters, next line and no-break space), one sign is allowed,
  and the digits may be grouped by single underscores. Anything else raises
  \<^verbatim>\<open>ValueError\<close>. (The interpreter's optional cap on the number of digits is left out.)\<close>

definition py_isspace :: "char \<Rightarrow> bool" where
  "py_isspace c =
     (c \<in> set [CHR '' '', CHR 0x09, CHR 0x0A, CHR 0x0B, CHR 0x0C, CHR 0x0D, CHR 0x85, CHR 0xA0])"

definition py_strip :: "string \<Rightarrow> string" where
  "py_strip s = rev (dropWhile py_isspace (rev (dropWhile py_isspace s)))"

definition digit_value :: "char \<Rightarrow> int option" where
  "digit_value = map_of (zip ''0123456789'' [0, 1, 2, 3, 4, 5, 6, 7, 8, 9])"

fun digits_grouped :: "string \<Rightarrow> bool" where
  "digits_grouped [] = False"
| "digits_grouped [c] = (digit_value c \<noteq> None)"
| "digits_grouped (c # d # rest) =
     (digit_value c \<noteq> None \<and>
      (if d = CHR ''_'' then digits_grouped rest else digits_grouped (d # rest)))"

fun decimal :: "int \<Rightarrow> string \<Rightarrow> int" where
  "decimal acc [] = acc"
| "decimal acc (c # cs) =
     (case digit_value c of None \<Rightarrow> decimal acc cs | Some d \<Rightarrow> decimal (10 * acc + d) cs)"

definition py_int :: "string \<Rightarrow> exc + int" where
  "py_int s =
     (let t = py_strip s;
          (sign, digits) =
            (case t of
               [] \<Rightarrow> (1, [])
             | c # cs \<Rightarrow>
                 if c = CHR ''-'' then (- 1, cs)
                 else if c = CHR ''+'' then (1, cs)
                 else (1, t))
      in if digits_grouped digits then Inr (sign * decimal 0 digits) else Inl (ValueError s))"

text \<open>\<^verbatim>\<open>str.lower()\<close> on ASCII letters. The accented capitals from 192 to 222 lower to
  accented small letters, which is left out: the result is only compared with \<^verbatim>\<open>'1'\<close>,
  \<^verbatim>\<open>'true'\<close> and \<^verbatim>\<open>'yes'\<close>, and no character from 128 on lowers to an ASCII one.\<close>

definition lower_char :: "char \<Rightarrow> char" where
  "lower_char c =
     (case map_of (zip ''ABCDEFGHIJKLMNOPQRSTUVWXYZ'' ''abcdefghijklmnopqrstuvwxyz'') c of
        None \<Rightarrow> c
      | Some l \<Rightarrow> l)"

definition lower :: "string \<Rightarrow> string" where
  "lower s = map lower_char s"

text \<open>A read of the environment never raises.\<close>

definition reads :: "string list \<Rightarrow> event list" where
  "reads keys = map (\<lambda>k. (Environ_get k, None)) keys"

text \<open>Lines 20 to 25, with the reads of the environment made so far. The only statement that
  can raise is the \<^verbatim>\<open>int\<close> of line 21; the four reads after it are then never made.\<close>

definition resolve_config :: "(string \<rightharpoonup> string) \<Rightarrow> event list \<times> (exc + config)" where
  "resolve_config env =
     (let host = environ_get env ''SMTP_HOST'' ''smtp.gmail.com'' in
      case py_int (environ_get env ''SMTP_PORT'' ''587'') of
        Inl e \<Rightarrow> (reads [''SMTP_HOST'', ''SMTP_PORT''], Inl e)
      | Inr port \<Rightarrow>
          let user = environ_get env ''SMTP_USER'' '''';
              pass = environ_get env ''SMTP_PASS'' '''';
              sender = environ_get env ''SMTP_FROM''
                         (if user \<noteq> '''' then user else ''monitor@example.com'');
              tls = (lower (environ_get env ''SMTP_STARTTLS'' ''true'')
                       \<in> set [''1'', ''true'', ''yes''])
          in (reads [''SMTP_HOST'', ''SMTP_PORT'', ''SMTP_USER'', ''SMTP_PASS'',
                     ''SMTP_FROM'', ''SMTP_STARTTLS''],
              Inr \<lparr>smtp_host = host, smtp_port = port, smtp_user = user, smtp_pass = pass,
                   smtp_from = sender, starttls = tls\<rparr>))"

subsection \<open>Body and message (lines 28 to 39)\<close>

text \<open>The first \<^verbatim>\<open>try\<close>: the read of the body file, as an event and as a value.\<close>

definition read_body :: "world \<Rightarrow> string \<Rightarrow> event \<times> (string + string)" where
  "read_body w path =
     (case file_read w path of
        Inl e \<Rightarrow> ((Open_read path, Some e), Inl e)
      | Inr body \<Rightarrow> ((Open_read path, None), Inr body))"

text \<open>Lines 35 to 39: the values the message is built from, which are the value assigned to
  each of the three headers and the text given to \<^verbatim>\<open>set_content\<close>. These lines are outside
  both \<^verbatim>\<open>try\<close> blocks: when the email package raises on them, the exception leaves
  \<^verbatim>\<open>main\<close>.\<close>

definition build_message :: "config \<Rightarrow> args \<Rightarrow> string \<Rightarrow> message" where
  "build_message cfg a body =
     \<lparr>msg_from = smtp_from cfg, msg_to = to a, msg_subject = subject a, msg_body = body\<rparr>"

text \<open>\<^verbatim>\<open>bytes.splitlines()\<close>, which \<^verbatim>\<open>set_content\<close> applies to the encoded text: a line ends at
  a line feed, at a carriage return, or at the two in this order; the line breaks are
  dropped, and what follows the last one is a line if it is not empty. The first argument is
  the line read so far.\<close>

fun split_lines :: "string \<Rightarrow> string \<Rightarrow> string list" where
  "split_lines line [] = (if line = [] then [] else [line])"
| "split_lines line [c] =
     (if c = CHR 0x0D \<or> c = CHR 0x0A then [line] else [line @ [c]])"
| "split_lines line (c # d # rest) =
     (if c = CHR 0x0D \<and> d = CHR 0x0A then line # split_lines [] rest
      else if c = CHR 0x0D \<or> c = CHR 0x0A then line # split_lines [] (d # rest)
      else split_lines (line @ [c]) (d # rest))"

text \<open>\<^verbatim>\<open>'\n'.join(lines)\<close>.\<close>

fun join_lines :: "string list \<Rightarrow> string" where
  "join_lines [] = []"
| "join_lines [l] = l"
| "join_lines (l # m # ls) = l @ CHR 0x0A # join_lines (m # ls)"

text \<open>\<^verbatim>\<open>msg.set_content(body)\<close> followed by \<^verbatim>\<open>msg.get_content()\<close>: the text the message
  carries. The package splits the text into lines and joins them again with line feeds, a
  line feed after the last: every line break becomes a line feed, and a text that does not
  end with a line break is given one. (The transfer encoding the package chooses for the
  text does not change what \<^verbatim>\<open>get_content\<close> returns.)\<close>

definition set_content :: "string \<Rightarrow> string" where
  "set_content body = join_lines (split_lines [] body) @ [CHR 0x0A]"

text \<open>The message as it stands after lines 35 to 39, when none of them raised: the three
  headers as the package stores them, and the text it carries.\<close>

record email =
  header_from :: string
  header_to :: string
  header_subject :: string
  content :: string

definition email_of :: "world \<Rightarrow> message \<Rightarrow> email" where
  "email_of w msg =
     \<lparr>header_from = header_value w ''From'' (msg_from msg),
      header_to = header_value w ''To'' (msg_to msg),
      header_subject = header_value w ''Subject'' (msg_subject msg),
      content = set_content (msg_body msg)\<rparr>"

subsection \<open>Transmission (lines 41 to 58)\<close>

text \<open>A block of calls whose results the program does not use: they run in order until one
  raises. The result is the events so far and the exception, if any.\<close>

fun run_calls ::
  "(event list \<Rightarrow> call \<Rightarrow> string option) \<Rightarrow> event list \<Rightarrow> call list \<Rightarrow> event list \<times> string option"
where
  "run_calls lib made [] = (made, None)"
| "run_calls lib made (c # cs) =
     (case lib made c of
        Some e \<Rightarrow> (made @ [(c, Some e)], Some e)
      | None \<Rightarrow> run_calls lib (made @ [(c, None)]) cs)"

text \<open>\<^verbatim>\<open>with <constructor> as server: <block>\<close>. When the constructor raises there is no
  session to leave. Otherwise the session is left after the block, whether the block raised
  or not; an exception raised on the way out replaces the block's.\<close>

definition with_session ::
  "(event list \<Rightarrow> call \<Rightarrow> string option) \<Rightarrow> event list \<Rightarrow> call \<Rightarrow> call list \<Rightarrow> event list \<times> string option"
where
  "with_session lib made ctor block =
     (case lib made ctor of
        Some e \<Rightarrow> (made @ [(ctor, Some e)], Some e)
      | None \<Rightarrow>
          (case run_calls lib (made @ [(ctor, None)]) block of
             (made', r) \<Rightarrow>
               (case lib made' Session_exit of
                  Some e \<Rightarrow> (made' @ [(Session_exit, Some e)], Some e)
                | None \<Rightarrow> (made' @ [(Session_exit, None)], r))))"

text \<open>\<^verbatim>\<open>if smtp_user: server.login(smtp_user, smtp_pass)\<close>, then \<^verbatim>\<open>server.send_message(msg)\<close>:
  the tail both branches share.\<close>

definition login_and_send :: "config \<Rightarrow> message \<Rightarrow> call list" where
  "login_and_send cfg msg =
     (if smtp_user cfg \<noteq> '''' then [Login (smtp_user cfg) (smtp_pass cfg)] else [])
     @ [Send_message msg]"

text \<open>The body of the second \<^verbatim>\<open>try\<close>.\<close>

definition transmit ::
  "(event list \<Rightarrow> call \<Rightarrow> string option) \<Rightarrow> config \<Rightarrow> message \<Rightarrow> event list \<times> string option"
where
  "transmit lib cfg msg =
     (if starttls cfg then
        (case lib [] Create_default_context of
           Some e \<Rightarrow> ([(Create_default_context, Some e)], Some e)
         | None \<Rightarrow>
             with_session lib [(Create_default_context, None)]
               (SMTP (smtp_host cfg) (smtp_port cfg) 30)
               ([Ehlo, Starttls, Ehlo] @ login_and_send cfg msg))
      else
        with_session lib []
          (SMTP_SSL (smtp_host cfg) (smtp_port cfg) 30)
          (login_and_send cfg msg))"

subsection \<open>The program\<close>

definition main :: "world \<Rightarrow> arg_item list \<Rightarrow> result" where
  "main w argv =
     (case parse_args argv of
        Inl e \<Rightarrow>
          \<lparr>outcome = Raised e,
           stdout = (if e = SystemExit 0 then [Help_text] else []),
           stderr = (if e = SystemExit 0 then [] else [Usage_error_text]),
           trace = [], message = None\<rparr>
      | Inr a \<Rightarrow>
          (case resolve_config (environ w) of
             (env_reads, Inl e) \<Rightarrow>
               \<lparr>outcome = Raised e, stdout = [], stderr = [], trace = env_reads,
                message = None\<rparr>
           | (env_reads, Inr cfg) \<Rightarrow>
               (case read_body w (body_file a) of
                  (opened, Inl e) \<Rightarrow>
                    \<lparr>outcome = Returned 3, stdout = [],
                     stderr = [Printed (''Error reading body file: '' @ e)],
                     trace = env_reads @ [opened], message = None\<rparr>
                | (opened, Inr body) \<Rightarrow>
                    let msg = build_message cfg a body in
                    (case message_error w msg of
                       Some e \<Rightarrow>
                         \<lparr>outcome = Raised (Exception e), stdout = [], stderr = [],
                          trace = env_reads @ [opened], message = None\<rparr>
                     | None \<Rightarrow>
                         (case transmit (library w) cfg msg of
                            (session, Some e) \<Rightarrow>
                              \<lparr>outcome = Returned 4, stdout = [],
                               stderr = [Printed (''SMTP send failed: '' @ e)],
                               trace = env_reads @ [opened] @ session, message = Some msg\<rparr>
                          | (session, None) \<Rightarrow>
                              \<lparr>outcome = Returned 0, stdout = [], stderr = [],
                               trace = env_reads @ [opened] @ session,
                               message = Some msg\<rparr>)))))"

text \<open>\<^verbatim>\<open>sys.exit(main())\<close> under the interpreter: the status of the process is the value
  returned, the code of a \<^verbatim>\<open>SystemExit\<close>, or 1 after any other uncaught exception, for which
  the interpreter writes a traceback to stderr.\<close>

fun exit_status :: "outcome \<Rightarrow> int" where
  "exit_status (Returned n) = n"
| "exit_status (Raised (SystemExit n)) = n"
| "exit_status (Raised e) = 1"

definition script :: "world \<Rightarrow> arg_item list \<Rightarrow> result" where
  "script w argv =
     (let r = main w argv in
      case outcome r of
        Returned n \<Rightarrow> r
      | Raised (SystemExit n) \<Rightarrow> r
      | Raised e \<Rightarrow> r\<lparr>stderr := stderr r @ [Traceback e]\<rparr>)"

subsection \<open>Reading a trace\<close>

text \<open>The calls of the SMTP session: every call of the trace but the reads of the environment
  and the opening of the body file.\<close>

fun session_call :: "call \<Rightarrow> bool" where
  "session_call (Environ_get k) = False"
| "session_call (Open_read p) = False"
| "session_call c = True"

definition session_calls :: "result \<Rightarrow> call list" where
  "session_calls r = filter session_call (map fst (trace r))"

text \<open>The messages handed to \<^verbatim>\<open>send_message\<close>, in order.\<close>

fun sent :: "call \<Rightarrow> message list" where
  "sent (Send_message m) = [m]"
| "sent c = []"

definition sent_messages :: "result \<Rightarrow> message list" where
  "sent_messages r = concat (map (sent \<circ> fst) (trace r))"

text \<open>The events that raised.\<close>

definition raised :: "event list \<Rightarrow> event list" where
  "raised es = filter (\<lambda>e. snd e \<noteq> None) es"

text \<open>No retry: once a call has raised, nothing follows it but, at most, the leaving of
  the session.\<close>

fun stops_at_failure :: "event list \<Rightarrow> bool" where
  "stops_at_failure [] = True"
| "stops_at_failure ((c, None) # es) = stops_at_failure es"
| "stops_at_failure ((c, Some e) # es) = (map fst es = [] \<or> map fst es = [Session_exit])"

text \<open>The events of calls that all returned.\<close>

definition returned :: "call list \<Rightarrow> event list" where
  "returned cs = map (\<lambda>c. (c, None)) cs"

text \<open>The calls the second \<^verbatim>\<open>try\<close> makes, in order, when none of them raises, but for the
  leaving of the session: lines 43 to 50, or lines 52 to 55.\<close>

definition session_plan :: "config \<Rightarrow> message \<Rightarrow> call list" where
  "session_plan cfg msg =
     (if starttls cfg
      then [Create_default_context, SMTP (smtp_host cfg) (smtp_port cfg) 30, Ehlo, Starttls, Ehlo]
      else [SMTP_SSL (smtp_host cfg) (smtp_port cfg) 30])
     @ login_and_send cfg msg"

text \<open>The calls that set the session up, before the login: creating the TLS context,
  connecting, EHLO and STARTTLS.\<close>

fun setup_call :: "call \<Rightarrow> bool" where
  "setup_call Create_default_context = True"
| "setup_call (SMTP h p t) = True"
| "setup_call (SMTP_SSL h p t) = True"
| "setup_call Ehlo = True"
| "setup_call Starttls = True"
| "setup_call c = False"

text \<open>The calls of the session that were made, but for its leaving.\<close>

definition attempted :: "event list \<Rightarrow> call list" where
  "attempted es = filter (\<lambda>c. session_call c \<and> c \<noteq> Session_exit) (map fst es)"

text \<open>A property of the mail library alone: it answers each call of a list, made in turn
  after the events \<open>made\<close>, without raising.\<close>

fun all_return ::
  "(event list \<Rightarrow> call \<Rightarrow> string option) \<Rightarrow> event list \<Rightarrow> call list \<Rightarrow> bool"
where
  "all_return lib made [] = True"
| "all_return lib made (c # cs) =
     (lib made c = None \<and> all_return lib (made @ [(c, None)]) cs)"

text \<open>Another: the calls of a list that get made when they are made in turn, after the events
  \<open>made\<close>, and the first one the library answers by raising is the last.\<close>

fun asked ::
  "(event list \<Rightarrow> call \<Rightarrow> string option) \<Rightarrow> event list \<Rightarrow> call list \<Rightarrow> call list"
where
  "asked lib made [] = []"
| "asked lib made (c # cs) =
     c # (case lib made c of Some e \<Rightarrow> [] | None \<Rightarrow> asked lib (made @ [(c, None)]) cs)"

subsection \<open>A concrete invocation\<close>

text \<open>The scenario of the specification: a server on localhost:2525 that accepts everything,
  direct TLS, a body file holding one line with no line break after it, and an email package
  that accepts every message and stores the headers as they are given (as it does with the
  addresses and the subject of this scenario).\<close>

definition example_world :: world where
  "example_world =
     \<lparr>environ = [''SMTP_HOST'' \<mapsto> ''localhost'', ''SMTP_PORT'' \<mapsto> ''2525'',
                 ''SMTP_STARTTLS'' \<mapsto> ''false''],
      file_read = (\<lambda>p. if p = ''/tmp/b.txt'' then Inr ''disk at 95%''
                        else Inl ''[Errno 2] No such file or directory''),
      message_error = (\<lambda>msg. None),
      header_value = (\<lambda>name v. v),
      library = (\<lambda>made c. None)\<rparr>"

definition example_argv :: "arg_item list" where
  "example_argv = [Opt_to ''a@b.com'', Opt_subject ''Disk full'', Opt_body_file ''/tmp/b.txt'']"

text \<open>The same invocation naming a body file that does not exist.\<close>

definition missing_file_argv :: "arg_item list" where
  "missing_file_argv =
     [Opt_to ''a@b.com'', Opt_subject ''Disk full'', Opt_body_file ''/tmp/missing.txt'']"

text \<open>The same invocation without \<^verbatim>\<open>--body-file\<close>.\<close>

definition short_argv :: "arg_item list" where
  "short_argv = [Opt_to ''a@b.com'', Opt_subject ''Disk full'']"

text \<open>A user and a password are set, and nothing listens on the port: the connection is
  refused.\<close>

definition refusing_world :: world where
  "refusing_world =
     example_world
       \<lparr>environ := (environ example_world)(''SMTP_USER'' \<mapsto> ''alice'', ''SMTP_PASS'' \<mapsto> ''secret''),
        library := (\<lambda>made c. case c of
                      SMTP_SSL h p t \<Rightarrow> Some ''[Errno 111] Connection refused''
                    | _ \<Rightarrow> None)\<rparr>"

text \<open>A user and a password are set, and \<^verbatim>\<open>SMTP_STARTTLS\<close> is \<^verbatim>\<open>Yes\<close>.\<close>

definition starttls_world :: world where
  "starttls_world =
     example_world
       \<lparr>environ := (environ example_world)(''SMTP_STARTTLS'' \<mapsto> ''Yes'',
                     ''SMTP_USER'' \<mapsto> ''alice'', ''SMTP_PASS'' \<mapsto> ''secret'')\<rparr>"

text \<open>\<^verbatim>\<open>SMTP_STARTTLS\<close> is unset, so the flag is true, and nothing listens on the port: the
  plain connection is refused.\<close>

definition refusing_plain_world :: world where
  "refusing_plain_world =
     example_world
       \<lparr>environ := [''SMTP_HOST'' \<mapsto> ''localhost'', ''SMTP_PORT'' \<mapsto> ''2525''],
        library := (\<lambda>made c. case c of
                      SMTP h p t \<Rightarrow> Some ''[Errno 111] Connection refused''
                    | _ \<Rightarrow> None)\<rparr>"

text \<open>\<^verbatim>\<open>SMTP_PORT\<close> is not a number.\<close>

definition bad_port_world :: world where
  "bad_port_world = example_world\<lparr>environ := [''SMTP_PORT'' \<mapsto> ''abc'']\<rparr>"

text \<open>\<^verbatim>\<open>SMTP_FROM\<close> is set, to the empty string.\<close>

definition empty_from_world :: world where
  "empty_from_world =
     example_world\<lparr>environ := (environ example_world)(''SMTP_FROM'' \<mapsto> '''')\<rparr>"

section \<open>Properties\<close>

subsection \<open>Unfolding the configuration\<close>

lemmas config_defs = resolve_config_def environ_get_def reads_def Let_def

lemmas string_defs = py_int_def py_strip_def py_isspace_def digit_value_def lower_def lower_char_def

text \<open>When the configuration resolves, the port was numeric, all six variables were read, and
  every field is the value lines 20 to 25 give it.\<close>

lemma resolve_config_cases:
  "resolve_config env = (rs, Inr cfg) \<Longrightarrow>
     \<exists>port. py_int (environ_get env ''SMTP_PORT'' ''587'') = Inr port \<and>
       rs = reads [''SMTP_HOST'', ''SMTP_PORT'', ''SMTP_USER'', ''SMTP_PASS'',
                  ''SMTP_FROM'', ''SMTP_STARTTLS''] \<and>
       cfg = \<lparr>smtp_host = environ_get env ''SMTP_HOST'' ''smtp.gmail.com'',
              smtp_port = port,
              smtp_user = environ_get env ''SMTP_USER'' '''',
              smtp_pass = environ_get env ''SMTP_PASS'' '''',
              smtp_from = environ_get env ''SMTP_FROM''
                 (if environ_get env ''SMTP_USER'' '''' \<noteq> ''''
                  then environ_get env ''SMTP_USER'' '''' else ''monitor@example.com''),
              starttls = (lower (environ_get env ''SMTP_STARTTLS'' ''true'')
                            \<in> set [''1'', ''true'', ''yes''])\<rparr>"
  by (auto simp: resolve_config_def Let_def split: sum.splits)

lemma resolve_config_from:
  assumes "resolve_config env = (rs, Inr cfg)"
  shows "smtp_from cfg =
           environ_get env ''SMTP_FROM''
             (if smtp_user cfg \<noteq> '''' then smtp_user cfg else ''monitor@example.com'')"
  using resolve_config_cases [OF assms] by auto

text \<open>The configuration resolves exactly when the port is numeric, that is, when \<^verbatim>\<open>int\<close>
  accepts the value of \<^verbatim>\<open>SMTP_PORT\<close> (or the default \<^verbatim>\<open>587\<close>).\<close>

lemma resolve_config_numeric:
  "(\<exists>rs cfg. resolve_config env = (rs, Inr cfg)) \<longleftrightarrow>
   (\<exists>port. py_int (environ_get env ''SMTP_PORT'' ''587'') = Inr port)"
  by (auto simp: resolve_config_def Let_def split: sum.splits)

subsection \<open>Argument parsing\<close>

text \<open>The loop over the command line leaves with status 0 only at a help option and with
  status 2 only at a rejected option; and an option that is not on the command line is not
  in the namespace after the loop.\<close>

lemma consume_error:
  "consume ns argv = Inl e \<Longrightarrow>
     (e = SystemExit 0 \<and> Opt_help \<in> set argv) \<or> (e = SystemExit 2 \<and> Opt_invalid \<in> set argv)"
  by (induction ns argv rule: consume.induct) auto

lemma consume_to:
  "consume ns argv = Inr ns' \<Longrightarrow> ns_to ns = None \<Longrightarrow> \<forall>v. Opt_to v \<notin> set argv \<Longrightarrow>
     ns_to ns' = None"
  by (induction ns argv rule: consume.induct) auto

lemma consume_subject:
  "consume ns argv = Inr ns' \<Longrightarrow> ns_subject ns = None \<Longrightarrow> \<forall>v. Opt_subject v \<notin> set argv \<Longrightarrow>
     ns_subject ns' = None"
  by (induction ns argv rule: consume.induct) auto

lemma consume_body_file:
  "consume ns argv = Inr ns' \<Longrightarrow> ns_body_file ns = None \<Longrightarrow>
     \<forall>v. Opt_body_file v \<notin> set argv \<Longrightarrow> ns_body_file ns' = None"
  by (induction ns argv rule: consume.induct) auto

lemma parse_args_missing:
  assumes "Opt_help \<notin> set argv"
    and "(\<forall>v. Opt_to v \<notin> set argv) \<or> (\<forall>v. Opt_subject v \<notin> set argv)
         \<or> (\<forall>v. Opt_body_file v \<notin> set argv)"
  shows "parse_args argv = Inl (SystemExit 2)"
proof (cases "consume \<lparr>ns_to = None, ns_subject = None, ns_body_file = None, extras = []\<rparr> argv")
  case (Inl e)
  with consume_error [OF Inl] assms(1) show ?thesis
    by (auto simp: parse_args_def)
next
  case (Inr ns')
  from assms(2) consume_to [OF Inr] consume_subject [OF Inr] consume_body_file [OF Inr]
  have "ns_to ns' = None \<or> ns_subject ns' = None \<or> ns_body_file ns' = None"
    by auto
  with Inr show ?thesis
    by (auto simp: parse_args_def split: option.splits)
qed

text \<open>The only exception \<^verbatim>\<open>int\<close> raises is the \<^verbatim>\<open>ValueError\<close> for its argument.\<close>

lemma py_int_error: "py_int s = Inl e \<Longrightarrow> e = ValueError s"
  by (auto simp: py_int_def Let_def split: prod.splits if_splits)

subsection \<open>The shape of a transmission\<close>

text \<open>A block of calls either runs to its end, every call returning, or stops at the first
  call that raises.\<close>

lemma returned_simps [simp]:
  "returned [] = []" "returned (c # cs) = (c, None) # returned cs"
  "returned (xs @ ys) = returned xs @ returned ys"
  by (simp_all add: returned_def)

lemma run_calls_None:
  "run_calls lib made cs = (evs, None) \<Longrightarrow> evs = made @ returned cs"
proof (induction cs arbitrary: made)
  case Nil
  then show ?case by simp
next
  case (Cons c cs)
  from Cons.prems have "run_calls lib (made @ [(c, None)]) cs = (evs, None)"
    by (simp split: option.splits)
  from Cons.IH [OF this] show ?case by simp
qed

lemma run_calls_Some:
  "run_calls lib made cs = (evs, Some e) \<Longrightarrow>
     \<exists>pre c post. cs = pre @ c # post \<and> evs = made @ returned pre @ [(c, Some e)]"
proof (induction cs arbitrary: made)
  case Nil
  then show ?case by simp
next
  case (Cons c cs)
  show ?case
  proof (cases "lib made c")
    case None
    with Cons.prems have "run_calls lib (made @ [(c, None)]) cs = (evs, Some e)"
      by simp
    from Cons.IH [OF this] obtain pre c' post where
      "cs = pre @ c' # post" "evs = (made @ [(c, None)]) @ returned pre @ [(c', Some e)]"
      by blast
    then have "c # cs = (c # pre) @ c' # post \<and> evs = made @ returned (c # pre) @ [(c', Some e)]"
      by simp
    then show ?thesis by blast
  next
    case (Some e')
    with Cons.prems have "c # cs = [] @ c # cs \<and> evs = made @ returned [] @ [(c, Some e)]"
      by auto
    then show ?thesis by blast
  qed
qed

lemma with_session_cases [consumes 1, case_names ctor_raised completed block_raised]:
  assumes "with_session lib made ctor block = (evs, r)"
  obtains
    (ctor_raised) e where "evs = made @ [(ctor, Some e)]" "r = Some e"
  | (completed) x where "evs = made @ (ctor, None) # returned block @ [(Session_exit, x)]" "r = x"
  | (block_raised) pre c post e x where
      "block = pre @ c # post"
      "evs = made @ (ctor, None) # returned pre @ [(c, Some e), (Session_exit, x)]"
      "r = Some (case x of None \<Rightarrow> e | Some e' \<Rightarrow> e')"
proof (cases "lib made ctor")
  case (Some e)
  with assms have "evs = made @ [(ctor, Some e)]" "r = Some e"
    by (auto simp: with_session_def)
  then show ?thesis by (rule ctor_raised)
next
  case None
  obtain made' r' where run: "run_calls lib (made @ [(ctor, None)]) block = (made', r')"
    by (cases "run_calls lib (made @ [(ctor, None)]) block")
  define x where "x = lib made' Session_exit"
  from assms None run have evs: "evs = made' @ [(Session_exit, x)]"
    and r: "r = (case x of None \<Rightarrow> r' | Some e' \<Rightarrow> Some e')"
    by (auto simp: with_session_def x_def split: option.splits)
  show ?thesis
  proof (cases r')
    case None
    with run_calls_None run have "made' = (made @ [(ctor, None)]) @ returned block"
      by blast
    with evs r None show ?thesis
      by (intro completed [of x]) (auto split: option.splits)
  next
    case (Some e)
    with run_calls_Some run obtain pre c post where
      "block = pre @ c # post" "made' = (made @ [(ctor, None)]) @ returned pre @ [(c, Some e)]"
      by blast
    with evs r Some show ?thesis
      by (intro block_raised [of pre c post e x]) (auto split: option.splits)
  qed
qed

lemma map_fst_returned [simp]: "map fst (returned cs) = cs"
  by (simp add: returned_def comp_def)

lemma in_returned [simp]: "(c, x) \<in> set (returned cs) \<longleftrightarrow> c \<in> set cs \<and> x = None"
  by (auto simp: returned_def)

lemma raised_returned [simp]: "raised (returned cs @ es) = raised es"
  by (induction cs) (simp_all add: raised_def)

lemma stops_at_failure_returned [simp]:
  "stops_at_failure (returned cs @ es) = stops_at_failure es"
  by (induction cs) simp_all

lemma stops_at_failure_last [simp]: "stops_at_failure [(c, x)]"
  by (cases x) simp_all

lemma session_plan_no_exit: "Session_exit \<notin> set (session_plan cfg msg)"
  by (simp add: session_plan_def login_and_send_def)

lemma transmit_cases [consumes 1, case_names completed no_session block_raised]:
  assumes "transmit lib cfg msg = (evs, r)"
  obtains
    (completed) x where
      "evs = returned (session_plan cfg msg) @ [(Session_exit, x)]" "r = x"
  | (no_session) pre c post e where
      "session_plan cfg msg = pre @ c # post"
      "evs = returned pre @ [(c, Some e)]" "r = Some e"
      "c \<notin> set (login_and_send cfg msg)"
  | (block_raised) pre c post e x where
      "session_plan cfg msg = pre @ c # post"
      "evs = returned pre @ [(c, Some e), (Session_exit, x)]"
      "r = Some (case x of None \<Rightarrow> e | Some e' \<Rightarrow> e')"
proof (cases "starttls cfg")
  case False
  with assms have
    ws: "with_session lib [] (SMTP_SSL (smtp_host cfg) (smtp_port cfg) 30)
           (login_and_send cfg msg) = (evs, r)"
    by (simp add: transmit_def)
  from False have plan:
    "session_plan cfg msg = SMTP_SSL (smtp_host cfg) (smtp_port cfg) 30 # login_and_send cfg msg"
    by (simp add: session_plan_def)
  from ws show ?thesis
  proof (cases rule: with_session_cases)
    case (ctor_raised e)
    with plan show ?thesis
      by (intro no_session [of "[]" _ "login_and_send cfg msg" e])
         (auto simp: login_and_send_def)
  next
    case (completed x)
    with plan show ?thesis
      by (intro that(1) [of x]) auto
  next
    case (block_raised pre c post e x)
    with plan show ?thesis
      by (intro that(3) [of "SMTP_SSL (smtp_host cfg) (smtp_port cfg) 30 # pre" c post e x]) auto
  qed
next
  case True
  then have plan:
    "session_plan cfg msg =
       Create_default_context # SMTP (smtp_host cfg) (smtp_port cfg) 30 #
       ([Ehlo, Starttls, Ehlo] @ login_and_send cfg msg)"
    by (simp add: session_plan_def)
  show ?thesis
  proof (cases "lib [] Create_default_context")
    case (Some e)
    with True assms have "evs = [(Create_default_context, Some e)]" "r = Some e"
      by (auto simp: transmit_def)
    with plan show ?thesis
      by (intro no_session [of "[]" Create_default_context _ e])
         (auto simp: login_and_send_def)
  next
    case None
    with True assms have
      ws: "with_session lib [(Create_default_context, None)]
             (SMTP (smtp_host cfg) (smtp_port cfg) 30)
             ([Ehlo, Starttls, Ehlo] @ login_and_send cfg msg) = (evs, r)"
      by (simp add: transmit_def)
    from ws show ?thesis
    proof (cases rule: with_session_cases)
      case (ctor_raised e)
      with plan show ?thesis
        by (intro no_session [of "[Create_default_context]" _ _ e])
           (auto simp: login_and_send_def)
    next
      case (completed x)
      with plan show ?thesis
        by (intro that(1) [of x]) auto
    next
      case (block_raised pre c post e x)
      with plan show ?thesis
        by (intro that(3) [of "Create_default_context #
                     SMTP (smtp_host cfg) (smtp_port cfg) 30 # pre" c post e x]) auto
    qed
  qed
qed

lemma transmit_None:
  assumes "transmit lib cfg msg = (evs, None)"
  shows "evs = returned (session_plan cfg msg @ [Session_exit])"
  using assms by (cases rule: transmit_cases) (auto split: option.splits)

lemma transmit_Some:
  assumes "transmit lib cfg msg = (evs, Some d)"
  shows "\<exists>c. (c, Some d) \<in> set evs"
  using assms by (cases rule: transmit_cases) (auto split: option.splits)

lemma transmit_raised:
  assumes "transmit lib cfg msg = (evs, r)" and "(c, Some d) \<in> set evs"
  shows "r \<noteq> None"
  using assms by (cases rule: transmit_cases) auto

lemma transmit_stops:
  assumes "transmit lib cfg msg = (evs, r)"
  shows "stops_at_failure evs"
  using assms by (cases rule: transmit_cases) (auto split: option.splits)

subsection \<open>The text a message carries\<close>

lemma join_lines_terminated:
  "ls \<noteq> [] \<Longrightarrow> join_lines ls @ [CHR 0x0A] = concat (map (\<lambda>l. l @ [CHR 0x0A]) ls)"
  by (induction ls rule: join_lines.induct) simp_all

lemma split_lines_Cons:
  "t \<noteq> [] \<Longrightarrow>
   split_lines line (c # t) =
     (if c = CHR 0x0D \<and> hd t = CHR 0x0A then line # split_lines [] (tl t)
      else if c = CHR 0x0D \<or> c = CHR 0x0A then line # split_lines [] t
      else split_lines (line @ [c]) t)"
  by (cases t) simp_all

lemma split_lines_not_Nil: "t \<noteq> [] \<Longrightarrow> split_lines line t \<noteq> []"
  by (induction line t rule: split_lines.induct) simp_all

text \<open>A text without carriage returns that ends with a line feed is the concatenation of its
  lines, each with its line feed.\<close>

lemma split_lines_terminated:
  "CHR 0x0D \<notin> set s \<Longrightarrow>
   concat (map (\<lambda>l. l @ [CHR 0x0A]) (split_lines line (s @ [CHR 0x0A]))) = line @ s @ [CHR 0x0A]"
proof (induction s arbitrary: line)
  case Nil
  then show ?case by simp
next
  case (Cons c cs)
  then have "c \<noteq> CHR 0x0D" and "CHR 0x0D \<notin> set cs"
    by auto
  with Cons.IH [of "[]"] Cons.IH [of "line @ [c]"] show ?case
    by (simp add: split_lines_Cons)
qed

text \<open>No line holds a line break.\<close>

lemma split_lines_chars:
  "l \<in> set (split_lines line s) \<Longrightarrow> set l \<subseteq> set line \<union> (set s - {CHR 0x0D, CHR 0x0A})"
proof (induction line s arbitrary: l rule: split_lines.induct)
  case (1 line)
  then show ?case by (simp split: if_splits)
next
  case (2 line c)
  then show ?case by (auto split: if_splits)
next
  case (3 line c d rest)
  consider (crlf) "c = CHR 0x0D" "d = CHR 0x0A"
    | (break) "\<not> (c = CHR 0x0D \<and> d = CHR 0x0A)" "c = CHR 0x0D \<or> c = CHR 0x0A"
    | (other) "c \<noteq> CHR 0x0D" "c \<noteq> CHR 0x0A"
    by blast
  then show ?case
  proof cases
    case crlf
    with "3.prems" have "l = line \<or> l \<in> set (split_lines [] rest)"
      by simp
    then show ?thesis
    proof
      assume "l = line"
      then show ?thesis by blast
    next
      assume "l \<in> set (split_lines [] rest)"
      with "3.IH"(1) crlf have "set l \<subseteq> set [] \<union> (set rest - {CHR 0x0D, CHR 0x0A})"
        by blast
      then show ?thesis by auto
    qed
  next
    case break
    with "3.prems" have "l = line \<or> l \<in> set (split_lines [] (d # rest))"
      by auto
    then show ?thesis
    proof
      assume "l = line"
      then show ?thesis by blast
    next
      assume "l \<in> set (split_lines [] (d # rest))"
      with "3.IH"(2) break have "set l \<subseteq> set [] \<union> (set (d # rest) - {CHR 0x0D, CHR 0x0A})"
        by blast
      then show ?thesis by auto
    qed
  next
    case other
    with "3.prems" have "l \<in> set (split_lines (line @ [c]) (d # rest))"
      by simp
    with "3.IH"(3) other
    have "set l \<subseteq> set (line @ [c]) \<union> (set (d # rest) - {CHR 0x0D, CHR 0x0A})"
      by blast
    with other show ?thesis by auto
  qed
qed

lemma join_lines_chars: "set (join_lines ls) \<subseteq> \<Union> (set ` set ls) \<union> {CHR 0x0A}"
  by (induction ls rule: join_lines.induct) auto

lemma set_content_no_return: "CHR 0x0D \<notin> set (set_content s)"
proof
  assume "CHR 0x0D \<in> set (set_content s)"
  then have "CHR 0x0D \<in> set (join_lines (split_lines [] s))"
    by (simp add: set_content_def)
  with join_lines_chars obtain l where "l \<in> set (split_lines [] s)" and "CHR 0x0D \<in> set l"
    by fastforce
  with split_lines_chars [of l "[]" s] show False
    by auto
qed

text \<open>The text carried is the text given exactly when that ends with a line feed and holds no
  carriage return.\<close>

lemma set_content_same:
  "set_content s = s \<longleftrightarrow> s \<noteq> [] \<and> last s = CHR 0x0A \<and> CHR 0x0D \<notin> set s"
proof
  assume same: "set_content s = s"
  then have "s = join_lines (split_lines [] s) @ [CHR 0x0A]"
    by (simp add: set_content_def)
  then have "s \<noteq> []" and "last s = CHR 0x0A"
    by (metis snoc_eq_iff_butlast)+
  moreover from same set_content_no_return [of s] have "CHR 0x0D \<notin> set s"
    by simp
  ultimately show "s \<noteq> [] \<and> last s = CHR 0x0A \<and> CHR 0x0D \<notin> set s"
    by simp
next
  assume "s \<noteq> [] \<and> last s = CHR 0x0A \<and> CHR 0x0D \<notin> set s"
  then obtain t where s: "s = t @ [CHR 0x0A]" and t: "CHR 0x0D \<notin> set t"
    by (metis append_butlast_last_id in_set_butlastD)
  have "split_lines [] s \<noteq> []"
    by (simp add: s split_lines_not_Nil)
  then have "set_content s = concat (map (\<lambda>l. l @ [CHR 0x0A]) (split_lines [] s))"
    by (simp add: set_content_def join_lines_terminated)
  also from t have "\<dots> = s"
    by (simp add: s split_lines_terminated)
  finally show "set_content s = s" .
qed

subsection \<open>The program, step by step\<close>

text \<open>What \<^verbatim>\<open>main\<close> returns once the arguments have parsed, by the step at which it
  leaves.\<close>

lemma main_body_read:
  assumes "parse_args argv = Inr a" and "resolve_config (environ w) = (rs, Inr cfg)"
    and "file_read w (body_file a) = Inr body"
    and "message_error w (build_message cfg a body) = None"
    and "transmit (library w) cfg (build_message cfg a body) = (evs, r)"
  shows "main w argv =
           \<lparr>outcome = Returned (case r of None \<Rightarrow> 0 | Some e \<Rightarrow> 4),
            stdout = [],
            stderr = (case r of None \<Rightarrow> [] | Some e \<Rightarrow> [Printed (''SMTP send failed: '' @ e)]),
            trace = rs @ (Open_read (body_file a), None) # evs,
            message = Some (build_message cfg a body)\<rparr>"
  using assms by (simp add: main_def read_body_def split: option.splits)

lemma main_body_unread:
  assumes "parse_args argv = Inr a" and "resolve_config (environ w) = (rs, Inr cfg)"
    and "file_read w (body_file a) = Inl e"
  shows "main w argv =
           \<lparr>outcome = Returned 3, stdout = [],
            stderr = [Printed (''Error reading body file: '' @ e)],
            trace = rs @ [(Open_read (body_file a), Some e)],
            message = None\<rparr>"
  using assms by (simp add: main_def read_body_def)

lemma main_message_error:
  assumes "parse_args argv = Inr a" and "resolve_config (environ w) = (rs, Inr cfg)"
    and "file_read w (body_file a) = Inr body"
    and "message_error w (build_message cfg a body) = Some e"
  shows "main w argv =
           \<lparr>outcome = Raised (Exception e), stdout = [], stderr = [],
            trace = rs @ [(Open_read (body_file a), None)], message = None\<rparr>"
  using assms by (simp add: main_def read_body_def)

lemma main_config_error:
  assumes "parse_args argv = Inr a" and "resolve_config (environ w) = (rs, Inl e)"
  shows "main w argv =
           \<lparr>outcome = Raised e, stdout = [], stderr = [], trace = rs, message = None\<rparr>"
  using assms by (simp add: main_def)

lemma script_returned:
  "outcome (main w argv) = Returned n \<Longrightarrow> script w argv = main w argv"
  by (simp add: script_def)

lemma script_body_read:
  assumes "parse_args argv = Inr a" and "resolve_config (environ w) = (rs, Inr cfg)"
    and "file_read w (body_file a) = Inr body"
    and "message_error w (build_message cfg a body) = None"
    and "transmit (library w) cfg (build_message cfg a body) = (evs, r)"
  shows "script w argv =
           \<lparr>outcome = Returned (case r of None \<Rightarrow> 0 | Some e \<Rightarrow> 4),
            stdout = [],
            stderr = (case r of None \<Rightarrow> [] | Some e \<Rightarrow> [Printed (''SMTP send failed: '' @ e)]),
            trace = rs @ (Open_read (body_file a), None) # evs,
            message = Some (build_message cfg a body)\<rparr>"
  using main_body_read [OF assms] by (simp add: script_def)

lemma reads_returned: "reads keys = returned (map Environ_get keys)"
  by (simp add: reads_def returned_def comp_def)

lemma config_reads:
  assumes "resolve_config env = (rs, x)"
  shows "\<exists>keys. rs = returned (map Environ_get keys)"
proof -
  from assms have "\<exists>keys. rs = reads keys"
    by (auto simp: resolve_config_def Let_def split: sum.splits)
  then show ?thesis
    by (auto simp: reads_returned)
qed

lemma sent_returned_reads [simp]:
  "concat (map (sent \<circ> fst) (returned (map Environ_get keys))) = []"
  by (induction keys) simp_all

lemma sent_returned: "concat (map (sent \<circ> fst) (returned cs)) = concat (map sent cs)"
  by (induction cs) simp_all

lemma sent_session_plan: "concat (map sent (session_plan cfg msg)) = [msg]"
  by (simp add: session_plan_def login_and_send_def)

text \<open>When the arguments do not parse, nothing else happens.\<close>

lemma main_usage:
  assumes "parse_args argv = Inl e"
  shows "main w argv =
           \<lparr>outcome = Raised e,
            stdout = (if e = SystemExit 0 then [Help_text] else []),
            stderr = (if e = SystemExit 0 then [] else [Usage_error_text]),
            trace = [], message = None\<rparr>"
  using assms by (simp add: main_def)

subsection \<open>The password is used by the login only\<close>

lemma resolve_config_pass:
  "resolve_config (env(''SMTP_PASS'' := p)) =
     (case resolve_config env of
        (rs, Inl e) \<Rightarrow> (rs, Inl e)
      | (rs, Inr cfg) \<Rightarrow> (rs, Inr (cfg\<lparr>smtp_pass := (case p of None \<Rightarrow> '''' | Some v \<Rightarrow> v)\<rparr>)))"
  by (simp add: config_defs split: sum.splits)

lemma login_and_send_pass:
  "smtp_user cfg = '''' \<Longrightarrow> login_and_send (cfg\<lparr>smtp_pass := x\<rparr>) msg = login_and_send cfg msg"
  by (simp add: login_and_send_def)

lemma transmit_pass:
  "smtp_user cfg = '''' \<Longrightarrow> transmit lib (cfg\<lparr>smtp_pass := x\<rparr>) msg = transmit lib cfg msg"
  by (simp add: transmit_def login_and_send_pass cong: option.case_cong)

lemma build_message_pass: "build_message (cfg\<lparr>smtp_pass := x\<rparr>) a body = build_message cfg a body"
  by (simp add: build_message_def)

lemma read_body_environ: "read_body (w\<lparr>environ := env\<rparr>) path = read_body w path"
  by (simp add: read_body_def)

lemma main_pass:
  assumes "environ_get (environ w) ''SMTP_USER'' '''' = ''''"
  shows "main (w\<lparr>environ := (environ w)(''SMTP_PASS'' := p)\<rparr>) argv = main w argv"
proof (cases "parse_args argv")
  case (Inl e)
  then show ?thesis by (simp add: main_def)
next
  case parsed: (Inr a)
  obtain rs x where config: "resolve_config (environ w) = (rs, x)"
    by (cases "resolve_config (environ w)")
  show ?thesis
  proof (cases x)
    case (Inl e)
    with parsed config show ?thesis
      by (simp add: main_def resolve_config_pass)
  next
    case (Inr cfg)
    from resolve_config_cases config Inr assms have "smtp_user cfg = ''''"
      by fastforce
    with parsed config Inr show ?thesis
      by (simp add: main_def resolve_config_pass read_body_environ transmit_pass
                    build_message_pass Let_def
               split: prod.splits sum.splits option.splits)
  qed
qed

subsection \<open>The calls of a run\<close>

text \<open>Every call of the plan is a call of the session, and none of them leaves it.\<close>

lemma session_plan_session_call:
  "c \<in> set (session_plan cfg msg) \<Longrightarrow> session_call c \<and> c \<noteq> Session_exit"
  by (auto simp: session_plan_def login_and_send_def split: if_splits)

lemma filter_session_plan:
  assumes "set cs \<subseteq> set (session_plan cfg msg)"
  shows "filter (\<lambda>c. session_call c \<and> c \<noteq> Session_exit) cs = cs"
    and "filter session_call cs = cs"
  using assms session_plan_session_call [of _ cfg msg] by (auto simp: filter_id_conv)

lemma filter_reads [simp]:
  "filter (\<lambda>c. session_call c \<and> P c) (map Environ_get keys) = []"
  "filter session_call (map Environ_get keys) = []"
  by (induction keys) simp_all

text \<open>The calls made are the plan, or the plan up to the first call that raised.\<close>

lemma transmit_attempted [consumes 1, case_names all stopped]:
  assumes "transmit lib cfg msg = (evs, r)"
  obtains
    (all)
      "attempted evs = session_plan cfg msg"
      "map fst evs = session_plan cfg msg @ [Session_exit]"
  | (stopped) pre c post e where
      "session_plan cfg msg = pre @ c # post"
      "attempted evs = pre @ [c]" "(c, Some e) \<in> set evs"
      "map fst evs = pre @ [c] \<or> map fst evs = pre @ [c, Session_exit]"
  using assms
proof (cases rule: transmit_cases)
  case (completed x)
  with filter_session_plan [OF subset_refl, of cfg msg] show ?thesis
    by (intro all) (simp_all add: attempted_def)
next
  case (no_session pre c post e)
  then have "session_call x \<and> x \<noteq> Session_exit" if "x \<in> set pre \<or> x = c" for x
    using that session_plan_session_call [of x cfg msg] by auto
  then have "filter (\<lambda>c. session_call c \<and> c \<noteq> Session_exit) pre = pre"
    and "session_call c \<and> c \<noteq> Session_exit"
    by (simp_all add: filter_id_conv)
  with no_session show ?thesis
    by (intro stopped [of pre c post e]) (simp_all add: attempted_def)
next
  case (block_raised pre c post e x)
  then have "session_call x \<and> x \<noteq> Session_exit" if "x \<in> set pre \<or> x = c" for x
    using that session_plan_session_call [of x cfg msg] by auto
  then have "filter (\<lambda>c. session_call c \<and> c \<noteq> Session_exit) pre = pre"
    and "session_call c \<and> c \<noteq> Session_exit"
    by (simp_all add: filter_id_conv)
  with block_raised show ?thesis
    by (intro stopped [of pre c post e]) (simp_all add: attempted_def)
qed

lemma script_trace_calls:
  assumes "parse_args argv = Inr a" and "resolve_config (environ w) = (rs, Inr cfg)"
    and "file_read w (body_file a) = Inr body"
    and "message_error w (build_message cfg a body) = None"
    and "transmit (library w) cfg (build_message cfg a body) = (evs, r)"
  shows "attempted (trace (script w argv)) = attempted evs"
    and "session_calls (script w argv) = map fst evs"
    and "(c, Some e) \<in> set (trace (script w argv)) \<longleftrightarrow> (c, Some e) \<in> set evs"
proof -
  note run = script_body_read [OF assms]
  from config_reads [OF assms(2)] obtain keys where rs: "rs = returned (map Environ_get keys)"
    by blast
  show "attempted (trace (script w argv)) = attempted evs"
    by (simp add: run rs attempted_def)
  from assms(5) have "filter session_call (map fst evs) = map fst evs"
  proof (cases rule: transmit_attempted)
    case all
    with filter_session_plan(2) [OF subset_refl, of cfg "build_message cfg a body"]
    show ?thesis by simp
  next
    case (stopped pre c post e)
    then have "set (pre @ [c]) \<subseteq> set (session_plan cfg (build_message cfg a body))"
      by auto
    from filter_session_plan(2) [OF this] stopped(4) show ?thesis
      by auto
  qed
  then show "session_calls (script w argv) = map fst evs"
    by (simp add: run rs session_calls_def)
  show "(c, Some e) \<in> set (trace (script w argv)) \<longleftrightarrow> (c, Some e) \<in> set evs"
    by (auto simp: run rs)
qed

text \<open>The login: made for a non-empty user only, with the configured pair; made whenever the
  set-up calls returned; and right before the send.\<close>

lemma transmit_login_only:
  assumes "transmit lib cfg msg = (evs, r)" and "Login u p \<in> set (map fst evs)"
  shows "smtp_user cfg \<noteq> '''' \<and> u = smtp_user cfg \<and> p = smtp_pass cfg"
proof -
  from assms have "Login u p \<in> set (session_plan cfg msg)"
    by (cases rule: transmit_cases) auto
  then show ?thesis
    by (auto simp: session_plan_def login_and_send_def split: if_splits)
qed

lemma transmit_login_order:
  assumes "transmit lib cfg msg = (evs, r)" and "smtp_user cfg \<noteq> ''''"
    and "Send_message m \<in> set (map fst evs)"
  shows "(Login (smtp_user cfg) (smtp_pass cfg), Send_message m)
           \<in> set (zip (map fst evs) (tl (map fst evs)))"
  using assms
  by (auto simp: transmit_def with_session_def login_and_send_def
           split: option.splits if_splits)

lemma transmit_login_made:
  assumes "transmit lib cfg msg = (evs, r)" and "smtp_user cfg \<noteq> ''''"
  shows "Login (smtp_user cfg) (smtp_pass cfg) \<in> set (map fst evs)
         \<or> list_ex (\<lambda>ev. setup_call (fst ev) \<and> snd ev \<noteq> None) evs"
  using assms
  by (auto simp: transmit_def with_session_def login_and_send_def
           split: option.splits if_splits)

text \<open>The interpreter's traceback changes stderr only.\<close>

lemma script_trace: "trace (script w argv) = trace (main w argv)"
  by (simp add: script_def Let_def split: outcome.splits exc.splits)

lemma session_calls_reads [simp]: "filter session_call (map fst (returned (map Environ_get keys))) = []"
  by simp

text \<open>A call of the session is made only once the arguments have parsed, the configuration
  has resolved and the body file has been read.\<close>

lemma session_call_reached:
  assumes "c \<in> set (session_calls (script w argv))"
  obtains a rs cfg body where
    "parse_args argv = Inr a" "resolve_config (environ w) = (rs, Inr cfg)"
    "file_read w (body_file a) = Inr body"
    "message_error w (build_message cfg a body) = None"
proof (cases "parse_args argv")
  case (Inl e)
  with assms show ?thesis
    by (simp add: session_calls_def script_trace main_usage)
next
  case parsed: (Inr a)
  obtain rs x where config: "resolve_config (environ w) = (rs, x)"
    by (cases "resolve_config (environ w)")
  from config_reads [OF config] obtain keys where rs: "rs = returned (map Environ_get keys)"
    by blast
  show ?thesis
  proof (cases x)
    case (Inl e)
    with assms parsed config rs show ?thesis
      by (simp add: session_calls_def script_trace main_config_error)
  next
    case resolved: (Inr cfg)
    show ?thesis
    proof (cases "file_read w (body_file a)")
      case (Inl e)
      with assms parsed config resolved rs show ?thesis
        by (simp add: session_calls_def script_trace main_body_unread)
    next
      case read: (Inr body)
      show ?thesis
      proof (cases "message_error w (build_message cfg a body)")
        case (Some e)
        with assms parsed config resolved read rs show ?thesis
          by (simp add: session_calls_def script_trace main_message_error)
      next
        case None
        with parsed config resolved read show ?thesis
          by (intro that [of a rs cfg body]) simp_all
      qed
    qed
  qed
qed

lemma login_needs_user:
  assumes "Login u x \<in> set (session_calls (script w argv))"
  shows "environ_get (environ w) ''SMTP_USER'' '''' \<noteq> ''''"
proof -
  from assms obtain a rs cfg body where
    reach: "parse_args argv = Inr a" "resolve_config (environ w) = (rs, Inr cfg)"
      "file_read w (body_file a) = Inr body"
      "message_error w (build_message cfg a body) = None"
    by (rule session_call_reached)
  obtain evs r where tr: "transmit (library w) cfg (build_message cfg a body) = (evs, r)"
    by (cases "transmit (library w) cfg (build_message cfg a body)")
  from assms transmit_login_only [OF tr, of u x] have "smtp_user cfg \<noteq> ''''"
    by (simp add: script_trace_calls [OF reach tr])
  with resolve_config_cases [OF reach(2)] show ?thesis
    by auto
qed

subsection \<open>A library that answers\<close>

lemma all_return_append:
  "all_return lib made (xs @ ys) \<longleftrightarrow>
     all_return lib made xs \<and> all_return lib (made @ returned xs) ys"
  by (induction xs arbitrary: made) simp_all

lemma run_calls_all_return:
  "all_return lib made cs \<Longrightarrow> run_calls lib made cs = (made @ returned cs, None)"
  by (induction cs arbitrary: made) simp_all

text \<open>When the library answers every call of the plan and the leaving of the session, the
  transmission makes them all and ends without an exception.\<close>

lemma transmit_all_return:
  assumes "all_return lib [] (session_plan cfg msg @ [Session_exit])"
  shows "transmit lib cfg msg = (returned (session_plan cfg msg @ [Session_exit]), None)"
proof (cases "starttls cfg")
  case True
  let ?made = "[(Create_default_context, None), (SMTP (smtp_host cfg) (smtp_port cfg) 30, None)]"
  let ?block = "[Ehlo, Starttls, Ehlo] @ login_and_send cfg msg"
  from assms True have ctx: "lib [] Create_default_context = None"
    and ctor: "lib [(Create_default_context, None)] (SMTP (smtp_host cfg) (smtp_port cfg) 30) = None"
    and rest: "all_return lib ?made (?block @ [Session_exit])"
    by (simp_all add: session_plan_def)
  from rest have block: "all_return lib ?made ?block"
    and left: "lib (?made @ returned ?block) Session_exit = None"
    by (simp_all only: all_return_append all_return.simps)
  from run_calls_all_return [OF block] ctx ctor left True show ?thesis
    by (simp add: transmit_def with_session_def session_plan_def del: run_calls.simps)
next
  case False
  let ?made = "[(SMTP_SSL (smtp_host cfg) (smtp_port cfg) 30, None)]"
  let ?block = "login_and_send cfg msg"
  from assms False
  have ctor: "lib [] (SMTP_SSL (smtp_host cfg) (smtp_port cfg) 30) = None"
    and rest: "all_return lib ?made (?block @ [Session_exit])"
    by (simp_all add: session_plan_def)
  from rest have block: "all_return lib ?made ?block"
    and left: "lib (?made @ returned ?block) Session_exit = None"
    by (simp_all only: all_return_append all_return.simps)
  from run_calls_all_return [OF block] ctor left False show ?thesis
    by (simp add: transmit_def with_session_def session_plan_def del: run_calls.simps)
qed

subsection \<open>The calls that get made\<close>

lemma asked_subset: "set (asked lib made cs) \<subseteq> set cs"
  by (induction cs arbitrary: made) (auto split: option.splits)

lemma run_calls_asked:
  "run_calls lib made cs = (evs, r) \<Longrightarrow> map fst evs = map fst made @ asked lib made cs"
  by (induction cs arbitrary: made) (auto split: option.splits)

text \<open>The calls of a transmission are those of the plan, made in turn until the library
  raises.\<close>

lemma transmit_asked:
  assumes "transmit lib cfg msg = (evs, r)"
  shows "attempted evs = asked lib [] (session_plan cfg msg)"
proof -
  have keep: "filter (\<lambda>c. session_call c \<and> c \<noteq> Session_exit) (asked lib made cs) = asked lib made cs"
    if "set cs \<subseteq> set (session_plan cfg msg)" for made cs
    using that asked_subset [of lib made cs] filter_session_plan(1) [of "asked lib made cs" cfg msg]
    by blast
  show ?thesis
  proof (cases "starttls cfg")
    case True
    let ?ctor = "SMTP (smtp_host cfg) (smtp_port cfg) 30"
    let ?block = "[Ehlo, Starttls, Ehlo] @ login_and_send cfg msg"
    have block: "set ?block \<subseteq> set (session_plan cfg msg)"
      using True by (auto simp: session_plan_def)
    show ?thesis
    proof (cases "lib [] Create_default_context")
      case (Some e)
      with assms True have "map fst evs = [Create_default_context]"
        by (auto simp: transmit_def)
      with True Some show ?thesis
        by (simp add: attempted_def session_plan_def)
    next
      case ctx: None
      show ?thesis
      proof (cases "lib [(Create_default_context, None)] ?ctor")
        case (Some e)
        with assms True ctx have "map fst evs = [Create_default_context, ?ctor]"
          by (auto simp: transmit_def with_session_def)
        with True ctx Some show ?thesis
          by (simp add: attempted_def session_plan_def)
      next
        case None
        obtain made' r' where
          run: "run_calls lib [(Create_default_context, None), (?ctor, None)] ?block = (made', r')"
          by (cases "run_calls lib [(Create_default_context, None), (?ctor, None)] ?block")
        from run_calls_asked [OF run]
        have made': "map fst made' = [Create_default_context, ?ctor]
                       @ asked lib [(Create_default_context, None), (?ctor, None)] ?block"
          by simp
        from assms True ctx None run
        have "map fst evs = map fst made' @ [Session_exit]"
          by (auto simp: transmit_def with_session_def split: option.splits)
        with made' keep [OF block] True ctx None show ?thesis
          by (simp add: attempted_def session_plan_def)
      qed
    qed
  next
    case False
    let ?ctor = "SMTP_SSL (smtp_host cfg) (smtp_port cfg) 30"
    let ?block = "login_and_send cfg msg"
    have block: "set ?block \<subseteq> set (session_plan cfg msg)"
      using False by (auto simp: session_plan_def)
    show ?thesis
    proof (cases "lib [] ?ctor")
      case (Some e)
      with assms False have "map fst evs = [?ctor]"
        by (auto simp: transmit_def with_session_def)
      with False Some show ?thesis
        by (simp add: attempted_def session_plan_def)
    next
      case None
      obtain made' r' where run: "run_calls lib [(?ctor, None)] ?block = (made', r')"
        by (cases "run_calls lib [(?ctor, None)] ?block")
      from run_calls_asked [OF run]
      have made': "map fst made' = [?ctor] @ asked lib [(?ctor, None)] ?block"
        by simp
      from assms False None run
      have "map fst evs = map fst made' @ [Session_exit]"
        by (auto simp: transmit_def with_session_def split: option.splits)
      with made' keep [OF block] False None show ?thesis
        by (simp add: attempted_def session_plan_def)
    qed
  qed
qed

subsection \<open>The concrete invocations\<close>

text \<open>The definitions that a run on a concrete world unfolds, and the configurations the
  example worlds resolve to.\<close>

lemmas run_defs =
  script_def main_def parse_args_def read_body_def build_message_def transmit_def
  with_session_def login_and_send_def session_calls_def sent_messages_def attempted_def
  session_plan_def

lemmas world_defs =
  example_world_def example_argv_def missing_file_argv_def short_argv_def refusing_world_def
  starttls_world_def bad_port_world_def empty_from_world_def

lemma example_argv_parsed:
  "parse_args example_argv =
     Inr \<lparr>to = ''a@b.com'', subject = ''Disk full'', body_file = ''/tmp/b.txt''\<rparr>"
  by (simp add: parse_args_def example_argv_def)

lemma example_world_config:
  "resolve_config (environ example_world) =
     (reads [''SMTP_HOST'', ''SMTP_PORT'', ''SMTP_USER'', ''SMTP_PASS'', ''SMTP_FROM'',
             ''SMTP_STARTTLS''],
      Inr \<lparr>smtp_host = ''localhost'', smtp_port = 2525, smtp_user = '''', smtp_pass = '''',
           smtp_from = ''monitor@example.com'', starttls = False\<rparr>)"
  by (simp add: config_defs string_defs example_world_def)

lemma refusing_world_config:
  "resolve_config (environ refusing_world) =
     (reads [''SMTP_HOST'', ''SMTP_PORT'', ''SMTP_USER'', ''SMTP_PASS'', ''SMTP_FROM'',
             ''SMTP_STARTTLS''],
      Inr \<lparr>smtp_host = ''localhost'', smtp_port = 2525, smtp_user = ''alice'',
           smtp_pass = ''secret'', smtp_from = ''alice'', starttls = False\<rparr>)"
  by (simp add: config_defs string_defs refusing_world_def example_world_def)

lemma starttls_world_config:
  "resolve_config (environ starttls_world) =
     (reads [''SMTP_HOST'', ''SMTP_PORT'', ''SMTP_USER'', ''SMTP_PASS'', ''SMTP_FROM'',
             ''SMTP_STARTTLS''],
      Inr \<lparr>smtp_host = ''localhost'', smtp_port = 2525, smtp_user = ''alice'',
           smtp_pass = ''secret'', smtp_from = ''alice'', starttls = True\<rparr>)"
  by (simp add: config_defs string_defs starttls_world_def example_world_def)

lemma empty_from_world_config:
  "resolve_config (environ empty_from_world) =
     (reads [''SMTP_HOST'', ''SMTP_PORT'', ''SMTP_USER'', ''SMTP_PASS'', ''SMTP_FROM'',
             ''SMTP_STARTTLS''],
      Inr \<lparr>smtp_host = ''localhost'', smtp_port = 2525, smtp_user = '''', smtp_pass = '''',
           smtp_from = '''', starttls = False\<rparr>)"
  by (simp add: config_defs string_defs empty_from_world_def example_world_def)

subsection \<open>C1: a delivered message\<close>

text \<open>
  C1 as stated: when the arguments parse, the port is numeric, the body file reads and the
  transmission completes without error, the program exits with status 0 and the one message
  it sends has as body the full content of the body file. It fails for a body file that does
  not end with a line break: \<^verbatim>\<open>set_content\<close> ends the last line of the text with a line
  feed. Here the file holds \<^verbatim>\<open>disk at 95%\<close> and every call returns: the program exits with
  status 0, and the one message it sends carries that text followed by a line feed.
\<close>

theorem body_line_feed_counterexample:
  "file_read example_world ''/tmp/b.txt'' = Inr ''disk at 95%''
   \<and> exit_status (outcome (script example_world example_argv)) = 0
   \<and> map (content \<circ> email_of example_world) (sent_messages (script example_world example_argv))
       = [''disk at 95%'' @ [CHR 0x0A]]
   \<and> map (content \<circ> email_of example_world) (sent_messages (script example_world example_argv))
       \<noteq> [''disk at 95%'']"
  by (simp add: run_defs config_defs string_defs world_defs email_of_def set_content_def)

text \<open>
  C1, amended: when the three arguments parse, the port is numeric (so the configuration
  resolves, to \<open>cfg\<close>), the body file reads, the email package builds the message, and the
  mail library answers every call of the session, and its leaving, without raising, then the
  program returns 0, so the process exits with status 0; nothing is written to stdout (nor to
  stderr); every call of the session is made, once and in order; and exactly one message is
  handed to \<^verbatim>\<open>send_message\<close>. That message was given the resolved \<open>smtp_from\<close> as From, the
  \<^verbatim>\<open>--to\<close> argument as To, the \<^verbatim>\<open>--subject\<close> argument as Subject and the whole content of the
  body file as text: its headers are what the email package stores for these three values,
  and the text it carries is the content of the file with every line break turned into a
  line feed and a line feed after the last line. That text is the content of the file
  exactly when the content ends with a line feed and holds no carriage return.
\<close>

theorem delivered_exit_0_content:
  assumes "parse_args argv = Inr a"
    and "resolve_config (environ w) = (rs, Inr cfg)"
    and "file_read w (body_file a) = Inr body"
    and "message_error w (build_message cfg a body) = None"
    and "all_return (library w) [] (session_plan cfg (build_message cfg a body) @ [Session_exit])"
  shows "outcome (script w argv) = Returned 0
       \<and> exit_status (outcome (script w argv)) = 0
       \<and> stdout (script w argv) = []
       \<and> stderr (script w argv) = []
       \<and> trace (script w argv) =
           rs @ [(Open_read (body_file a), None)]
              @ returned (session_plan cfg (build_message cfg a body) @ [Session_exit])
       \<and> sent_messages (script w argv) =
           [\<lparr>msg_from = smtp_from cfg, msg_to = to a, msg_subject = subject a,
             msg_body = body\<rparr>]
       \<and> map (email_of w) (sent_messages (script w argv)) =
           [\<lparr>header_from = header_value w ''From'' (smtp_from cfg),
             header_to = header_value w ''To'' (to a),
             header_subject = header_value w ''Subject'' (subject a),
             content = set_content body\<rparr>]
       \<and> (set_content body = body \<longleftrightarrow>
            body \<noteq> [] \<and> last body = CHR 0x0A \<and> CHR 0x0D \<notin> set body)"
proof -
  let ?msg = "build_message cfg a body"
  note run = script_body_read [OF assms(1-4) transmit_all_return [OF assms(5)]]
  from config_reads [OF assms(2)] obtain keys where rs: "rs = returned (map Environ_get keys)"
    by blast
  have sent: "sent_messages (script w argv) = [?msg]"
    by (simp add: run sent_messages_def rs sent_returned sent_session_plan)
  have msg: "?msg = \<lparr>msg_from = smtp_from cfg, msg_to = to a, msg_subject = subject a,
                      msg_body = body\<rparr>"
    by (simp add: build_message_def)
  have held: "map (email_of w) (sent_messages (script w argv)) =
           [\<lparr>header_from = header_value w ''From'' (smtp_from cfg),
             header_to = header_value w ''To'' (to a),
             header_subject = header_value w ''Subject'' (subject a),
             content = set_content body\<rparr>]"
    by (simp add: sent msg email_of_def)
  have same: "set_content body = body \<longleftrightarrow>
            body \<noteq> [] \<and> last body = CHR 0x0A \<and> CHR 0x0D \<notin> set body"
    by (rule set_content_same)
  have status: "outcome (script w argv) = Returned 0" "stdout (script w argv) = []"
    "stderr (script w argv) = []"
    "trace (script w argv) =
       rs @ [(Open_read (body_file a), None)] @ returned (session_plan cfg ?msg @ [Session_exit])"
    by (simp_all add: run)
  from status sent msg held same show ?thesis
    by simp
qed

text \<open>The scenario of the specification: exit status 0, nothing on stdout, one message sent,
  whose text is the line of the file with a line feed after it.\<close>

theorem delivered_exit_0_content_witness:
  "parse_args example_argv =
     Inr \<lparr>to = ''a@b.com'', subject = ''Disk full'', body_file = ''/tmp/b.txt''\<rparr>
   \<and> file_read example_world ''/tmp/b.txt'' = Inr ''disk at 95%''
   \<and> exit_status (outcome (script example_world example_argv)) = 0
   \<and> stdout (script example_world example_argv) = []
   \<and> session_calls (script example_world example_argv) =
       [SMTP_SSL ''localhost'' 2525 30,
        Send_message \<lparr>msg_from = ''monitor@example.com'', msg_to = ''a@b.com'',
                      msg_subject = ''Disk full'', msg_body = ''disk at 95%''\<rparr>,
        Session_exit]
   \<and> map (email_of example_world) (sent_messages (script example_world example_argv)) =
       [\<lparr>header_from = ''monitor@example.com'', header_to = ''a@b.com'',
         header_subject = ''Disk full'', content = ''disk at 95%'' @ [CHR 0x0A]\<rparr>]"
proof -
  let ?a = "\<lparr>to = ''a@b.com'', subject = ''Disk full'', body_file = ''/tmp/b.txt''\<rparr>"
  let ?cfg = "\<lparr>smtp_host = ''localhost'', smtp_port = 2525, smtp_user = '''', smtp_pass = '''',
               smtp_from = ''monitor@example.com'', starttls = False\<rparr>"
  have body: "file_read example_world (body_file ?a) = Inr ''disk at 95%''"
    by (simp add: example_world_def)
  have built: "message_error example_world (build_message ?cfg ?a ''disk at 95%'') = None"
    by (simp add: example_world_def)
  have answers: "all_return (library example_world) []
                   (session_plan ?cfg (build_message ?cfg ?a ''disk at 95%'') @ [Session_exit])"
    by (simp add: example_world_def session_plan_def login_and_send_def)
  have calls: "session_calls (script example_world example_argv) =
       [SMTP_SSL ''localhost'' 2525 30,
        Send_message \<lparr>msg_from = ''monitor@example.com'', msg_to = ''a@b.com'',
                      msg_subject = ''Disk full'', msg_body = ''disk at 95%''\<rparr>,
        Session_exit]"
    by (simp add: run_defs config_defs string_defs world_defs)
  have joined: "set_content ''disk at 95%'' = ''disk at 95%'' @ [CHR 0x0A]"
    by (simp add: set_content_def)
  have stored: "header_value example_world name v = v" for name v
    by (simp add: example_world_def)
  from delivered_exit_0_content [OF example_argv_parsed example_world_config body built answers]
    example_argv_parsed body calls joined stored
  show ?thesis by (simp add: email_of_def)
qed

subsection \<open>C2: an unreadable body file\<close>

text \<open>
  C2: when opening or reading the body file raises (the arguments have parsed and the
  configuration has resolved, or the file would not be opened), with error text \<open>e\<close>, the
  program writes the line \<^verbatim>\<open>Error reading body file: e\<close> to stderr and returns 3; no message
  is built, and no call of the SMTP session is made: the trace ends with the failed read.
\<close>

theorem unreadable_body_exit_3:
  assumes "parse_args argv = Inr a"
    and "resolve_config (environ w) = (rs, Inr cfg)"
    and "file_read w (body_file a) = Inl e"
  shows "outcome (script w argv) = Returned 3
       \<and> exit_status (outcome (script w argv)) = 3
       \<and> stderr (script w argv) = [Printed (''Error reading body file: '' @ e)]
       \<and> stdout (script w argv) = []
       \<and> message (script w argv) = None
       \<and> session_calls (script w argv) = []
       \<and> trace (script w argv) = rs @ [(Open_read (body_file a), Some e)]"
proof -
  note run = main_body_unread [OF assms]
  then have script: "script w argv = main w argv"
    by (simp add: script_returned)
  from config_reads [OF assms(2)] obtain keys where rs: "rs = returned (map Environ_get keys)"
    by blast
  have "filter session_call (map Environ_get keys) = []"
    by (induction keys) simp_all
  then have "session_calls (script w argv) = []"
    by (simp add: script run session_calls_def rs)
  then show ?thesis
    by (simp add: script run)
qed

text \<open>The same invocation with a body file that does not exist.\<close>

theorem unreadable_body_exit_3_witness:
  "file_read example_world ''/tmp/missing.txt'' = Inl ''[Errno 2] No such file or directory''
   \<and> exit_status (outcome (script example_world missing_file_argv)) = 3
   \<and> stderr (script example_world missing_file_argv) =
       [Printed ''Error reading body file: [Errno 2] No such file or directory'']
   \<and> message (script example_world missing_file_argv) = None
   \<and> session_calls (script example_world missing_file_argv) = []"
proof -
  let ?a = "\<lparr>to = ''a@b.com'', subject = ''Disk full'', body_file = ''/tmp/missing.txt''\<rparr>"
  have parsed: "parse_args missing_file_argv = Inr ?a"
    by (simp add: parse_args_def missing_file_argv_def)
  have body: "file_read example_world (body_file ?a) = Inl ''[Errno 2] No such file or directory''"
    by (simp add: example_world_def)
  from unreadable_body_exit_3 [OF parsed example_world_config body] body
  show ?thesis by simp
qed

subsection \<open>C3: a failed transmission\<close>

text \<open>
  C3: in every run in which a call of the SMTP session raised (so the run has reached the
  transmission), whichever call it was (creating the TLS context, connecting, EHLO, STARTTLS,
  login, send, or leaving the session) and whatever it raised, the program returns 4 and
  writes to stderr the one line \<^verbatim>\<open>SMTP send failed: d\<close>, where \<open>d\<close> is the text of an exception
  raised by a call of the session; nothing is retried: after the first call that raised,
  nothing follows but the leaving of the session.
\<close>

theorem smtp_failure_exit_4:
  assumes "(c, Some e) \<in> set (trace (script w argv))" and "session_call c"
  shows "outcome (script w argv) = Returned 4
       \<and> exit_status (outcome (script w argv)) = 4
       \<and> stdout (script w argv) = []
       \<and> (\<exists>c' d. (c', Some d) \<in> set (trace (script w argv)) \<and> session_call c'
                 \<and> stderr (script w argv) = [Printed (''SMTP send failed: '' @ d)])
       \<and> stops_at_failure (trace (script w argv))"
proof -
  from assms have "c \<in> set (session_calls (script w argv))"
    by (force simp: session_calls_def)
  then obtain a rs cfg body where
    reach: "parse_args argv = Inr a" "resolve_config (environ w) = (rs, Inr cfg)"
      "file_read w (body_file a) = Inr body"
      "message_error w (build_message cfg a body) = None"
    by (rule session_call_reached)
  obtain evs r where tr: "transmit (library w) cfg (build_message cfg a body) = (evs, r)"
    by (cases "transmit (library w) cfg (build_message cfg a body)")
  note run = script_body_read [OF reach tr]
  note calls = script_trace_calls [OF reach tr]
  from config_reads [OF reach(2)] obtain keys where rs: "rs = returned (map Environ_get keys)"
    by blast
  from assms(1) have "(c, Some e) \<in> set evs"
    by (simp add: calls)
  with transmit_raised [OF tr] obtain d where r: "r = Some d"
    by blast
  from transmit_Some tr r obtain c' where raised: "(c', Some d) \<in> set evs"
    by blast
  then have "c' \<in> set (session_calls (script w argv))"
    by (force simp: calls)
  then have "session_call c'"
    by (simp add: session_calls_def)
  moreover from raised have "(c', Some d) \<in> set (trace (script w argv))"
    by (simp add: calls)
  moreover have "stops_at_failure (trace (script w argv))"
    using transmit_stops [OF tr]
    by (simp add: run rs del: append_Cons)
  ultimately show ?thesis
    by (auto simp: run r)
qed

text \<open>A refused connection: the constructor raises, and the program returns 4.\<close>

theorem smtp_failure_exit_4_witness:
  "(SMTP_SSL ''localhost'' 2525 30, Some ''[Errno 111] Connection refused'')
     \<in> set (trace (script refusing_world example_argv))
   \<and> session_call (SMTP_SSL ''localhost'' 2525 30)
   \<and> exit_status (outcome (script refusing_world example_argv)) = 4
   \<and> stderr (script refusing_world example_argv) =
       [Printed ''SMTP send failed: [Errno 111] Connection refused'']
   \<and> stops_at_failure (trace (script refusing_world example_argv))"
proof -
  have refused:
    "(SMTP_SSL ''localhost'' 2525 30, Some ''[Errno 111] Connection refused'')
       \<in> set (trace (script refusing_world example_argv))"
    by (simp add: run_defs config_defs string_defs world_defs)
  have session: "session_call (SMTP_SSL ''localhost'' 2525 30)"
    by simp
  have err: "stderr (script refusing_world example_argv) =
       [Printed ''SMTP send failed: [Errno 111] Connection refused'']"
    by (simp add: run_defs config_defs string_defs world_defs)
  from smtp_failure_exit_4 [OF refused session] refused err
  show ?thesis by simp
qed

subsection \<open>C4: the resolved sender\<close>

text \<open>
  C4 as stated: the resolved \<open>smtp_from\<close> is never the empty string. It fails where
  \<^verbatim>\<open>SMTP_FROM\<close> is set to the empty string: \<^verbatim>\<open>os.environ.get\<close> falls back to its default
  only when the variable is absent, so the empty value is kept.
\<close>

theorem smtp_from_empty_counterexample:
  "resolve_config [''SMTP_FROM'' \<mapsto> ''''] =
     (reads [''SMTP_HOST'', ''SMTP_PORT'', ''SMTP_USER'', ''SMTP_PASS'', ''SMTP_FROM'',
             ''SMTP_STARTTLS''],
      Inr \<lparr>smtp_host = ''smtp.gmail.com'', smtp_port = 587, smtp_user = '''',
           smtp_pass = '''', smtp_from = '''', starttls = True\<rparr>)"
  by (simp add: config_defs string_defs)

text \<open>
  C4, amended: the resolved \<open>smtp_from\<close> is the value of \<^verbatim>\<open>SMTP_FROM\<close> when that variable is
  set, otherwise the resolved \<open>smtp_user\<close> when that is not empty, otherwise the literal
  \<^verbatim>\<open>monitor@example.com\<close>; it is not empty unless \<^verbatim>\<open>SMTP_FROM\<close> is set to the empty string.
\<close>

theorem smtp_from_resolution:
  assumes "resolve_config env = (rs, Inr cfg)"
  shows "smtp_from cfg =
           (case env ''SMTP_FROM'' of
              Some v \<Rightarrow> v
            | None \<Rightarrow> if smtp_user cfg \<noteq> '''' then smtp_user cfg else ''monitor@example.com'')
         \<and> (env ''SMTP_FROM'' \<noteq> Some '''' \<longrightarrow> smtp_from cfg \<noteq> '''')"
proof (cases "env ''SMTP_FROM''")
  case None
  with resolve_config_from [OF assms] show ?thesis
    by (simp add: environ_get_def)
next
  case (Some v)
  with resolve_config_from [OF assms] show ?thesis
    by (simp add: environ_get_def)
qed

theorem smtp_from_resolution_witness:
  "resolve_config [''SMTP_USER'' \<mapsto> ''alice''] =
     (reads [''SMTP_HOST'', ''SMTP_PORT'', ''SMTP_USER'', ''SMTP_PASS'', ''SMTP_FROM'',
             ''SMTP_STARTTLS''],
      Inr \<lparr>smtp_host = ''smtp.gmail.com'', smtp_port = 587, smtp_user = ''alice'',
           smtp_pass = '''', smtp_from = ''alice'', starttls = True\<rparr>)
   \<and> smtp_from \<lparr>smtp_host = ''smtp.gmail.com'', smtp_port = 587, smtp_user = ''alice'',
           smtp_pass = '''', smtp_from = ''alice'', starttls = True\<rparr> \<noteq> ''''"
proof -
  have resolved:
    "resolve_config [''SMTP_USER'' \<mapsto> ''alice''] =
       (reads [''SMTP_HOST'', ''SMTP_PORT'', ''SMTP_USER'', ''SMTP_PASS'', ''SMTP_FROM'',
               ''SMTP_STARTTLS''],
        Inr \<lparr>smtp_host = ''smtp.gmail.com'', smtp_port = 587, smtp_user = ''alice'',
             smtp_pass = '''', smtp_from = ''alice'', starttls = True\<rparr>)"
    by (simp add: config_defs string_defs)
  from smtp_from_resolution [OF resolved] resolved show ?thesis
    by simp
qed

subsection \<open>C5: the STARTTLS flag\<close>

text \<open>
  C5 as stated: when the flag is true the program opens a plain SMTP connection and upgrades
  it with STARTTLS. It fails where a call before the upgrade raises: here \<^verbatim>\<open>SMTP_STARTTLS\<close>
  is unset, so the flag is true, and the plain connection is refused; the exception ends the
  transmission, the program returns 4, and STARTTLS is never called.
\<close>

theorem starttls_refused_counterexample:
  "resolve_config (environ refusing_plain_world) =
     (reads [''SMTP_HOST'', ''SMTP_PORT'', ''SMTP_USER'', ''SMTP_PASS'', ''SMTP_FROM'',
             ''SMTP_STARTTLS''],
      Inr \<lparr>smtp_host = ''localhost'', smtp_port = 2525, smtp_user = '''', smtp_pass = '''',
           smtp_from = ''monitor@example.com'', starttls = True\<rparr>)
   \<and> trace (script refusing_plain_world example_argv) =
       reads [''SMTP_HOST'', ''SMTP_PORT'', ''SMTP_USER'', ''SMTP_PASS'', ''SMTP_FROM'',
              ''SMTP_STARTTLS'']
       @ [(Open_read ''/tmp/b.txt'', None),
          (Create_default_context, None),
          (SMTP ''localhost'' 2525 30, Some ''[Errno 111] Connection refused'')]
   \<and> Starttls \<notin> set (session_calls (script refusing_plain_world example_argv))
   \<and> exit_status (outcome (script refusing_plain_world example_argv)) = 4"
  by (simp add: run_defs config_defs string_defs refusing_plain_world_def example_world_def
      example_argv_def)

text \<open>
  C5, amended: whenever the configuration resolves, the flag \<open>starttls\<close> is true exactly when
  the lowercased value of \<^verbatim>\<open>SMTP_STARTTLS\<close> (\<^verbatim>\<open>true\<close> when the variable is unset) is one of
  \<^verbatim>\<open>1\<close>, \<^verbatim>\<open>true\<close>, \<^verbatim>\<open>yes\<close>, and false for every other value. In a run that reaches the
  transmission (the arguments have parsed, the body file has been read and the message has
  been built), the flag selects the session. When it is true, the calls made (leaving the
  session apart) are these, in this order, up to the first one the mail library answers by
  raising: create the TLS context, open a plain \<^verbatim>\<open>SMTP\<close> connection to (host, port) with a
  timeout of 30 seconds, EHLO, STARTTLS, EHLO, then the login, if any, and the send; so when
  the library answers the calls that set the session up, the plain connection is opened and
  upgraded with STARTTLS; and no \<^verbatim>\<open>SMTP_SSL\<close> connection is ever opened. When it is false,
  the calls made are, up to the first one that raises: open an \<^verbatim>\<open>SMTP_SSL\<close> connection to
  (host, port) with the same timeout, then the login, if any, and the send; the first call
  is that connection, and there is no TLS context of the program's, no plain \<^verbatim>\<open>SMTP\<close>
  connection and no STARTTLS.
\<close>

theorem starttls_flag_session_calls:
  assumes "resolve_config (environ w) = (rs, Inr cfg)"
  shows "(starttls cfg \<longleftrightarrow>
            lower (environ_get (environ w) ''SMTP_STARTTLS'' ''true'') \<in> {''1'', ''true'', ''yes''})
       \<and> (\<forall>a body. parse_args argv = Inr a \<and> file_read w (body_file a) = Inr body
                   \<and> message_error w (build_message cfg a body) = None \<longrightarrow>
            (starttls cfg \<longrightarrow>
               attempted (trace (script w argv)) =
                 asked (library w) []
                   ([Create_default_context, SMTP (smtp_host cfg) (smtp_port cfg) 30,
                     Ehlo, Starttls, Ehlo] @ login_and_send cfg (build_message cfg a body))
             \<and> ((\<forall>made c. setup_call c \<longrightarrow> library w made c = None) \<longrightarrow>
                  take 5 (attempted (trace (script w argv))) =
                    [Create_default_context, SMTP (smtp_host cfg) (smtp_port cfg) 30,
                     Ehlo, Starttls, Ehlo])
             \<and> (\<forall>h p t. SMTP_SSL h p t \<notin> set (attempted (trace (script w argv)))))
          \<and> (\<not> starttls cfg \<longrightarrow>
               attempted (trace (script w argv)) =
                 asked (library w) []
                   (SMTP_SSL (smtp_host cfg) (smtp_port cfg) 30
                    # login_and_send cfg (build_message cfg a body))
             \<and> take 1 (attempted (trace (script w argv))) =
                  [SMTP_SSL (smtp_host cfg) (smtp_port cfg) 30]
             \<and> Create_default_context \<notin> set (attempted (trace (script w argv)))
             \<and> Starttls \<notin> set (attempted (trace (script w argv)))
             \<and> (\<forall>h p t. SMTP h p t \<notin> set (attempted (trace (script w argv))))))"
proof (intro conjI allI impI)
  from resolve_config_cases [OF assms]
  show "starttls cfg \<longleftrightarrow>
          lower (environ_get (environ w) ''SMTP_STARTTLS'' ''true'') \<in> {''1'', ''true'', ''yes''}"
    by auto
next
  fix a body
  assume reach: "parse_args argv = Inr a \<and> file_read w (body_file a) = Inr body
                   \<and> message_error w (build_message cfg a body) = None"
  let ?msg = "build_message cfg a body"
  let ?calls = "attempted (trace (script w argv))"
  let ?tls = "[Create_default_context, SMTP (smtp_host cfg) (smtp_port cfg) 30, Ehlo, Starttls, Ehlo]
              @ login_and_send cfg ?msg"
  let ?ssl = "SMTP_SSL (smtp_host cfg) (smtp_port cfg) 30 # login_and_send cfg ?msg"
  obtain evs r where tr: "transmit (library w) cfg ?msg = (evs, r)"
    by (cases "transmit (library w) cfg ?msg")
  from reach have parsed: "parse_args argv = Inr a" and body: "file_read w (body_file a) = Inr body"
    and built: "message_error w (build_message cfg a body) = None"
    by simp_all
  from script_trace_calls(1) [OF parsed assms body built tr] transmit_asked [OF tr]
  have calls: "?calls = asked (library w) [] (session_plan cfg ?msg)"
    by simp
  have made: "set ?calls \<subseteq> set (session_plan cfg ?msg)"
    unfolding calls by (rule asked_subset)
  {
    assume flag: "starttls cfg"
    with calls show tls: "?calls = asked (library w) [] ?tls"
      by (simp add: session_plan_def)
    {
      assume "\<forall>made c. setup_call c \<longrightarrow> library w made c = None"
      then have "library w made c = None" if "setup_call c" for made c
        using that by blast
      then show "take 5 ?calls =
          [Create_default_context, SMTP (smtp_host cfg) (smtp_port cfg) 30, Ehlo, Starttls, Ehlo]"
        by (simp add: tls)
    }
    {
      fix h p t
      from made flag show "SMTP_SSL h p t \<notin> set ?calls"
        by (auto simp: session_plan_def login_and_send_def split: if_splits)
    }
  }
  {
    assume flag: "\<not> starttls cfg"
    with calls show ssl: "?calls = asked (library w) [] ?ssl"
      by (simp add: session_plan_def)
    then show "take 1 ?calls = [SMTP_SSL (smtp_host cfg) (smtp_port cfg) 30]"
      by simp
    from made flag show "Create_default_context \<notin> set ?calls"
      by (auto simp: session_plan_def login_and_send_def split: if_splits)
    from made flag show "Starttls \<notin> set ?calls"
      by (auto simp: session_plan_def login_and_send_def split: if_splits)
    {
      fix h p t
      from made flag show "SMTP h p t \<notin> set ?calls"
        by (auto simp: session_plan_def login_and_send_def split: if_splits)
    }
  }
qed

text \<open>With \<^verbatim>\<open>SMTP_STARTTLS=Yes\<close> and a library that answers every call, the flag is true, the
  plain connection is opened and upgraded, and the login and the send follow.\<close>

theorem starttls_flag_session_calls_witness:
  "lower (environ_get (environ starttls_world) ''SMTP_STARTTLS'' ''true'') = ''yes''
   \<and> starttls \<lparr>smtp_host = ''localhost'', smtp_port = 2525, smtp_user = ''alice'',
           smtp_pass = ''secret'', smtp_from = ''alice'', starttls = True\<rparr>
   \<and> attempted (trace (script starttls_world example_argv)) =
        [Create_default_context, SMTP ''localhost'' 2525 30, Ehlo, Starttls, Ehlo,
         Login ''alice'' ''secret'',
         Send_message \<lparr>msg_from = ''alice'', msg_to = ''a@b.com'', msg_subject = ''Disk full'',
                       msg_body = ''disk at 95%''\<rparr>]
   \<and> take 5 (attempted (trace (script starttls_world example_argv))) =
        [Create_default_context, SMTP ''localhost'' 2525 30, Ehlo, Starttls, Ehlo]"
proof -
  let ?a = "\<lparr>to = ''a@b.com'', subject = ''Disk full'', body_file = ''/tmp/b.txt''\<rparr>"
  have body: "file_read starttls_world (body_file ?a) = Inr ''disk at 95%''"
    by (simp add: starttls_world_def example_world_def)
  have built: "message_error starttls_world m = None" for m
    by (simp add: starttls_world_def example_world_def)
  have answers: "library starttls_world made c = None" for made c
    by (simp add: starttls_world_def example_world_def)
  have flag: "lower (environ_get (environ starttls_world) ''SMTP_STARTTLS'' ''true'') = ''yes''"
    by (simp add: environ_get_def string_defs starttls_world_def example_world_def)
  from starttls_flag_session_calls [OF starttls_world_config, of example_argv]
    example_argv_parsed body built answers flag
  show ?thesis
    by (simp add: login_and_send_def build_message_def)
qed

subsection \<open>C6: a port that is not a number\<close>

text \<open>
  C6 as stated: in every invocation whose \<^verbatim>\<open>SMTP_PORT\<close> is not numeric the coercion raises
  and the process exits with a status other than 0, 3 and 4. It fails where the arguments do
  not parse: \<^verbatim>\<open>parse_args\<close> runs first (line 18), so with \<^verbatim>\<open>-h\<close> on the command line argparse
  prints the help and exits with status 0 before the environment is read.
\<close>

theorem bad_port_help_counterexample:
  "environ bad_port_world ''SMTP_PORT'' = Some ''abc''
   \<and> py_int ''abc'' = Inl (ValueError ''abc'')
   \<and> outcome (script bad_port_world [Opt_help]) = Raised (SystemExit 0)
   \<and> exit_status (outcome (script bad_port_world [Opt_help])) = 0
   \<and> trace (script bad_port_world [Opt_help]) = []"
  by (simp add: script_def main_def parse_args_def string_defs bad_port_world_def)

text \<open>
  C6, amended: in every invocation whose arguments parse and whose \<^verbatim>\<open>SMTP_PORT\<close> is set to a
  string that \<^verbatim>\<open>int\<close> rejects, the coercion of line 21 raises \<^verbatim>\<open>ValueError\<close>, which neither
  \<^verbatim>\<open>try\<close> block catches: it leaves \<^verbatim>\<open>main\<close>, the process exits with status 1 (so neither 0
  nor 3 nor 4), and stderr holds the traceback only, none of the program's two diagnostic
  lines. Only \<^verbatim>\<open>SMTP_HOST\<close> and \<^verbatim>\<open>SMTP_PORT\<close> have been read; the body file is not opened and
  no message is built.
\<close>

theorem bad_port_uncaught:
  assumes "parse_args argv = Inr a"
    and "environ w ''SMTP_PORT'' = Some s"
    and "py_int s = Inl e"
  shows "outcome (script w argv) = Raised (ValueError s)
       \<and> exit_status (outcome (script w argv)) = 1
       \<and> exit_status (outcome (script w argv)) \<notin> {0, 3, 4}
       \<and> stdout (script w argv) = []
       \<and> stderr (script w argv) = [Traceback (ValueError s)]
       \<and> trace (script w argv) = reads [''SMTP_HOST'', ''SMTP_PORT'']
       \<and> message (script w argv) = None"
proof -
  from assms(2,3) py_int_error [OF assms(3)]
  have "resolve_config (environ w) = (reads [''SMTP_HOST'', ''SMTP_PORT''], Inl (ValueError s))"
    by (simp add: resolve_config_def environ_get_def)
  from main_config_error [OF assms(1) this] show ?thesis
    by (simp add: script_def)
qed

text \<open>\<^verbatim>\<open>SMTP_PORT=abc\<close> with the three arguments given.\<close>

theorem bad_port_uncaught_witness:
  "environ bad_port_world ''SMTP_PORT'' = Some ''abc''
   \<and> py_int ''abc'' = Inl (ValueError ''abc'')
   \<and> outcome (script bad_port_world example_argv) = Raised (ValueError ''abc'')
   \<and> exit_status (outcome (script bad_port_world example_argv)) = 1
   \<and> stderr (script bad_port_world example_argv) = [Traceback (ValueError ''abc'')]
   \<and> trace (script bad_port_world example_argv) = reads [''SMTP_HOST'', ''SMTP_PORT'']"
proof -
  have port: "environ bad_port_world ''SMTP_PORT'' = Some ''abc''"
    by (simp add: bad_port_world_def)
  have bad: "py_int ''abc'' = Inl (ValueError ''abc'')"
    by (simp add: string_defs)
  from bad_port_uncaught [OF example_argv_parsed port bad] port bad
  show ?thesis by simp
qed

subsection \<open>C7: the login\<close>

text \<open>
  C7 as stated: in every invocation that reaches the transmission, a login is performed if
  and only if \<open>smtp_user\<close> is not empty. It fails where a call before the login raises: the
  exception ends the session, and no login is made although \<open>smtp_user\<close> is set. Here the
  connection is refused.
\<close>

theorem login_skipped_counterexample:
  "resolve_config (environ refusing_world) =
     (reads [''SMTP_HOST'', ''SMTP_PORT'', ''SMTP_USER'', ''SMTP_PASS'', ''SMTP_FROM'',
             ''SMTP_STARTTLS''],
      Inr \<lparr>smtp_host = ''localhost'', smtp_port = 2525, smtp_user = ''alice'',
           smtp_pass = ''secret'', smtp_from = ''alice'', starttls = False\<rparr>)
   \<and> session_calls (script refusing_world example_argv) = [SMTP_SSL ''localhost'' 2525 30]
   \<and> exit_status (outcome (script refusing_world example_argv)) = 4"
  by (simp add: run_defs config_defs string_defs world_defs)

text \<open>
  C7, amended: in every invocation that reaches the transmission (the arguments have parsed,
  the configuration has resolved, the body file has been read and the message has been
  built), in both branches: a login is made only if \<open>smtp_user\<close> is not empty, and then with
  the pair (\<open>smtp_user\<close>, \<open>smtp_pass\<close>); when \<open>smtp_user\<close> is not empty and none of the calls
  that set the session up (creating the TLS context, connecting, EHLO, STARTTLS) raised, the
  login is made; and when \<open>smtp_user\<close> is not empty, a call of \<^verbatim>\<open>send_message\<close> comes right
  after the login.
\<close>

theorem login_when_user_and_setup:
  assumes "parse_args argv = Inr a"
    and "resolve_config (environ w) = (rs, Inr cfg)"
    and "file_read w (body_file a) = Inr body"
    and "message_error w (build_message cfg a body) = None"
  shows "(\<forall>u p. Login u p \<in> set (session_calls (script w argv)) \<longrightarrow>
            smtp_user cfg \<noteq> '''' \<and> u = smtp_user cfg \<and> p = smtp_pass cfg)
       \<and> (smtp_user cfg \<noteq> ''''
            \<and> (\<forall>c e. (c, Some e) \<in> set (trace (script w argv)) \<longrightarrow> \<not> setup_call c) \<longrightarrow>
          Login (smtp_user cfg) (smtp_pass cfg) \<in> set (session_calls (script w argv)))
       \<and> (\<forall>m. smtp_user cfg \<noteq> '''' \<and> Send_message m \<in> set (session_calls (script w argv)) \<longrightarrow>
            (Login (smtp_user cfg) (smtp_pass cfg), Send_message m)
              \<in> set (zip (session_calls (script w argv)) (tl (session_calls (script w argv)))))"
proof -
  let ?msg = "build_message cfg a body"
  obtain evs r where tr: "transmit (library w) cfg ?msg = (evs, r)"
    by (cases "transmit (library w) cfg ?msg")
  note calls = script_trace_calls [OF assms tr]
  have only: "smtp_user cfg \<noteq> '''' \<and> u = smtp_user cfg \<and> p = smtp_pass cfg"
    if "Login u p \<in> set (session_calls (script w argv))" for u p
    using that transmit_login_only [OF tr, of u p] by (simp add: calls)
  have made: "Login (smtp_user cfg) (smtp_pass cfg) \<in> set (session_calls (script w argv))"
    if "smtp_user cfg \<noteq> ''''"
      and "\<forall>c e. (c, Some e) \<in> set (trace (script w argv)) \<longrightarrow> \<not> setup_call c"
  proof -
    have "\<not> list_ex (\<lambda>ev. setup_call (fst ev) \<and> snd ev \<noteq> None) evs"
    proof
      assume "list_ex (\<lambda>ev. setup_call (fst ev) \<and> snd ev \<noteq> None) evs"
      then obtain c e where "(c, Some e) \<in> set evs" and "setup_call c"
        by (auto simp: list_ex_iff)
      with that(2) show False
        by (auto simp: calls)
    qed
    with transmit_login_made [OF tr that(1)] show ?thesis
      by (simp add: calls)
  qed
  have order: "(Login (smtp_user cfg) (smtp_pass cfg), Send_message m)
                 \<in> set (zip (session_calls (script w argv)) (tl (session_calls (script w argv))))"
    if "smtp_user cfg \<noteq> ''''" and "Send_message m \<in> set (session_calls (script w argv))" for m
    using that transmit_login_order [OF tr] by (simp add: calls)
  from only made order show ?thesis
    by blast
qed

text \<open>A user is set and every call returns: the login is made, right before the send.\<close>

theorem login_when_user_and_setup_witness:
  "smtp_user \<lparr>smtp_host = ''localhost'', smtp_port = 2525, smtp_user = ''alice'',
           smtp_pass = ''secret'', smtp_from = ''alice'', starttls = True\<rparr> \<noteq> ''''
   \<and> raised (trace (script starttls_world example_argv)) = []
   \<and> Login ''alice'' ''secret'' \<in> set (session_calls (script starttls_world example_argv))
   \<and> (Login ''alice'' ''secret'',
       Send_message \<lparr>msg_from = ''alice'', msg_to = ''a@b.com'', msg_subject = ''Disk full'',
                     msg_body = ''disk at 95%''\<rparr>)
        \<in> set (zip (session_calls (script starttls_world example_argv))
                   (tl (session_calls (script starttls_world example_argv))))"
proof -
  let ?a = "\<lparr>to = ''a@b.com'', subject = ''Disk full'', body_file = ''/tmp/b.txt''\<rparr>"
  let ?m = "\<lparr>msg_from = ''alice'', msg_to = ''a@b.com'', msg_subject = ''Disk full'',
             msg_body = ''disk at 95%''\<rparr>"
  have body: "file_read starttls_world (body_file ?a) = Inr ''disk at 95%''"
    by (simp add: starttls_world_def example_world_def)
  have built: "message_error starttls_world m = None" for m
    by (simp add: starttls_world_def example_world_def)
  have none_raised: "raised (trace (script starttls_world example_argv)) = []"
    by (simp add: run_defs config_defs string_defs world_defs raised_def)
  then have quiet: "\<forall>c e. (c, Some e) \<in> set (trace (script starttls_world example_argv)) \<longrightarrow>
                      \<not> setup_call c"
    by (auto simp: raised_def filter_empty_conv)
  have sends: "Send_message ?m \<in> set (session_calls (script starttls_world example_argv))"
    by (simp add: run_defs config_defs string_defs world_defs)
  from login_when_user_and_setup [OF example_argv_parsed starttls_world_config body built]
    quiet sends none_raised
  show ?thesis by simp
qed

subsection \<open>C8: a missing option\<close>

text \<open>
  C8 as stated: every invocation that lacks one of \<^verbatim>\<open>--to\<close>, \<^verbatim>\<open>--subject\<close>, \<^verbatim>\<open>--body-file\<close>
  fails to parse and exits with status 2. It fails for \<^verbatim>\<open>mailer.py -h\<close>: the parser is built
  with the default help option, whose action prints the help to stdout and exits with
  status 0 where it stands, before the required options are checked.
\<close>

theorem help_exit_0_counterexample:
  "outcome (script example_world [Opt_help]) = Raised (SystemExit 0)
   \<and> exit_status (outcome (script example_world [Opt_help])) = 0
   \<and> stdout (script example_world [Opt_help]) = [Help_text]"
  by (simp add: script_def main_def parse_args_def)

text \<open>
  C8, amended: every invocation that lacks one of \<^verbatim>\<open>--to\<close>, \<^verbatim>\<open>--subject\<close>, \<^verbatim>\<open>--body-file\<close>
  and does not ask for help (\<^verbatim>\<open>-h\<close>, \<^verbatim>\<open>--help\<close>) fails to parse: argparse writes its usage
  error to stderr and raises \<^verbatim>\<open>SystemExit(2)\<close>, so the process exits with status 2, and the
  trace is empty: no environment variable has been read, the body file has not been opened,
  and no call of the SMTP session has been made.
\<close>

theorem missing_option_exit_2:
  assumes "Opt_help \<notin> set argv"
    and "(\<forall>v. Opt_to v \<notin> set argv) \<or> (\<forall>v. Opt_subject v \<notin> set argv)
         \<or> (\<forall>v. Opt_body_file v \<notin> set argv)"
  shows "outcome (script w argv) = Raised (SystemExit 2)
       \<and> exit_status (outcome (script w argv)) = 2
       \<and> trace (script w argv) = []
       \<and> message (script w argv) = None
       \<and> stdout (script w argv) = []
       \<and> stderr (script w argv) = [Usage_error_text]"
  using main_usage [OF parse_args_missing [OF assms], of w]
  by (simp add: script_def)

text \<open>The invocation without \<^verbatim>\<open>--body-file\<close>.\<close>

theorem missing_option_exit_2_witness:
  "Opt_help \<notin> set short_argv
   \<and> list_all (\<lambda>item. \<forall>v. item \<noteq> Opt_body_file v) short_argv
   \<and> outcome (script example_world short_argv) = Raised (SystemExit 2)
   \<and> exit_status (outcome (script example_world short_argv)) = 2
   \<and> trace (script example_world short_argv) = []
   \<and> stderr (script example_world short_argv) = [Usage_error_text]"
proof -
  have no_help: "Opt_help \<notin> set short_argv"
    by (simp add: short_argv_def)
  have missing: "(\<forall>v. Opt_to v \<notin> set short_argv) \<or> (\<forall>v. Opt_subject v \<notin> set short_argv)
                 \<or> (\<forall>v. Opt_body_file v \<notin> set short_argv)"
    by (simp add: short_argv_def)
  from missing_option_exit_2 [OF no_help missing, of example_world] no_help
  show ?thesis by (simp add: short_argv_def)
qed

subsection \<open>C9: an empty sender\<close>

text \<open>
  C9: whenever the configuration resolves: if \<^verbatim>\<open>SMTP_FROM\<close> is set to the empty string, the
  resolved \<open>smtp_from\<close> is the empty string, and it is the From header of the message whenever
  a message is built; whatever value \<^verbatim>\<open>SMTP_FROM\<close> is set to is kept as it is; and the fallback
  to \<open>smtp_user\<close>, then to \<^verbatim>\<open>monitor@example.com\<close>, is what happens when \<^verbatim>\<open>SMTP_FROM\<close> is unset.
\<close>

theorem empty_smtp_from_kept:
  assumes "resolve_config (environ w) = (rs, Inr cfg)"
  shows "(environ w ''SMTP_FROM'' = Some '''' \<longrightarrow>
            smtp_from cfg = '''' \<and>
            (\<forall>m. message (script w argv) = Some m \<longrightarrow> msg_from m = ''''))
       \<and> (\<forall>v. environ w ''SMTP_FROM'' = Some v \<longrightarrow> smtp_from cfg = v)
       \<and> (environ w ''SMTP_FROM'' = None \<longrightarrow>
            smtp_from cfg = (if smtp_user cfg \<noteq> '''' then smtp_user cfg
                             else ''monitor@example.com''))"
proof -
  have header: "msg_from m = smtp_from cfg" if "message (script w argv) = Some m" for m
    using that assms
    by (auto simp: script_def main_def read_body_def build_message_def Let_def
             split: sum.splits option.splits prod.splits exc.splits outcome.splits)
  from resolve_config_from [OF assms] header show ?thesis
    by (auto simp: environ_get_def)
qed

text \<open>With \<^verbatim>\<open>SMTP_FROM\<close> set to the empty string, the message built has an empty From.\<close>

theorem empty_smtp_from_kept_witness:
  "environ empty_from_world ''SMTP_FROM'' = Some ''''
   \<and> smtp_from \<lparr>smtp_host = ''localhost'', smtp_port = 2525, smtp_user = '''', smtp_pass = '''',
           smtp_from = '''', starttls = False\<rparr> = ''''
   \<and> message (script empty_from_world example_argv) =
       Some \<lparr>msg_from = '''', msg_to = ''a@b.com'', msg_subject = ''Disk full'',
             msg_body = ''disk at 95%''\<rparr>"
proof -
  have set_empty: "environ empty_from_world ''SMTP_FROM'' = Some ''''"
    by (simp add: empty_from_world_def example_world_def)
  have built: "message (script empty_from_world example_argv) =
       Some \<lparr>msg_from = '''', msg_to = ''a@b.com'', msg_subject = ''Disk full'',
             msg_body = ''disk at 95%''\<rparr>"
    by (simp add: run_defs config_defs string_defs world_defs)
  from empty_smtp_from_kept [OF empty_from_world_config, of example_argv] set_empty built
  show ?thesis by simp
qed

subsection \<open>C10: the password without a user\<close>

text \<open>
  C10: when the resolved \<open>smtp_user\<close> is empty (\<^verbatim>\<open>SMTP_USER\<close> unset, or set to the empty
  string), two invocations that differ only in \<^verbatim>\<open>SMTP_PASS\<close> (set to any value, or unset) give
  the same result in every part: the same exit code, the same output, the same trace of calls
  and the same message; and neither makes a login.
\<close>

theorem smtp_pass_unobservable:
  assumes "environ_get (environ w) ''SMTP_USER'' '''' = ''''"
  shows "script (w\<lparr>environ := (environ w)(''SMTP_PASS'' := p)\<rparr>) argv =
         script (w\<lparr>environ := (environ w)(''SMTP_PASS'' := q)\<rparr>) argv
       \<and> (\<forall>u x. Login u x \<notin> set (session_calls
              (script (w\<lparr>environ := (environ w)(''SMTP_PASS'' := p)\<rparr>) argv)))"
proof -
  have same: "script (w\<lparr>environ := (environ w)(''SMTP_PASS'' := v)\<rparr>) argv = script w argv" for v
    by (simp add: script_def main_pass [OF assms])
  have "Login u x \<notin> set (session_calls (script w argv))" for u x
    using login_needs_user [of u x w argv] assms by blast
  with same show ?thesis by simp
qed

text \<open>No user is set; a password is set in one run and not in the other.\<close>

theorem smtp_pass_unobservable_witness:
  "environ_get (environ example_world) ''SMTP_USER'' '''' = ''''
   \<and> script (example_world\<lparr>environ := (environ example_world)(''SMTP_PASS'' := Some ''secret'')\<rparr>)
        example_argv
     = script (example_world\<lparr>environ := (environ example_world)(''SMTP_PASS'' := None)\<rparr>)
        example_argv
   \<and> exit_status (outcome
        (script (example_world\<lparr>environ := (environ example_world)(''SMTP_PASS'' := Some ''secret'')\<rparr>)
           example_argv)) = 0"
proof -
  have no_user: "environ_get (environ example_world) ''SMTP_USER'' '''' = ''''"
    by (simp add: environ_get_def example_world_def)
  have status: "exit_status (outcome
        (script (example_world\<lparr>environ := (environ example_world)(''SMTP_PASS'' := Some ''secret'')\<rparr>)
           example_argv)) = 0"
    by (simp add: run_defs config_defs string_defs world_defs)
  from smtp_pass_unobservable
         [OF no_user, where p = "Some ''secret''" and q = None and argv = example_argv]
       no_user status
  show ?thesis by simp
qed

end
